theory Spec2Isabelle
  imports Complex_Main "HOL-Library.Word"
begin

section \<open>The sample-to-span synthesizer (src/src/simple_sampler.cpp)\<close>

text \<open>
  A \<open>Sample\<close> is a timestamp and a call stack, root first; an \<open>Event\<close> is a timestamp,
  a kind (the strings \<open>start\<close> and \<open>end\<close> in the source) and a frame name.
  The source stores timestamps as \<open>double\<close> and only ever copies them from a sample into
  an event: no arithmetic and no comparison is done on them. The timestamp type is
  therefore a type parameter of the model.
\<close>

record 'ts Sample =
  ts :: 'ts
  stack :: "string list"

record 'ts Event =
  ts :: 'ts
  kind :: string
  name :: string

text \<open>
  The loop state of \<open>convertToTrace\<close>: the vector \<open>result\<close> and the vector \<open>running\<close>.
  Both grow at the back; \<open>running.back()\<close> is \<open>last\<close>, \<open>pop_back\<close> is \<open>butlast\<close>.
  \<open>std::find(..) == end()\<close> is non-membership.
\<close>

type_synonym 'ts synth_state = "'ts Event list \<times> string list"

text \<open>Lines 34-39: the inner \<open>while\<close> loop that ends the functions that disappeared.\<close>

function end_disappeared :: "'ts Sample \<Rightarrow> 'ts synth_state \<Rightarrow> 'ts synth_state" where
  "end_disappeared sample (result, running) =
     (if running \<noteq> [] \<and> last running \<notin> set (stack sample)
      then end_disappeared sample
             (result @ [\<lparr>Event.ts = Sample.ts sample, kind = ''end'', Event.name = last running\<rparr>],
              butlast running)
      else (result, running))"
  by pat_completeness auto
termination
  by (relation "measure (\<lambda>(sample, result, running). length running)") auto

declare end_disappeared.simps [simp del]

text \<open>Lines 42-47: the inner \<open>for\<close> loop that starts the new functions.\<close>

fun start_new :: "'ts \<Rightarrow> string list \<Rightarrow> 'ts synth_state \<Rightarrow> 'ts synth_state" where
  "start_new t [] (result, running) = (result, running)"
| "start_new t (func # rest) (result, running) =
     (if func \<notin> set running
      then start_new t rest
             (result @ [\<lparr>Event.ts = t, kind = ''start'', Event.name = func\<rparr>], running @ [func])
      else start_new t rest (result, running))"

text \<open>One iteration of the outer loop (lines 31-48).\<close>

definition process_sample :: "'ts Sample \<Rightarrow> 'ts synth_state \<Rightarrow> 'ts synth_state" where
  "process_sample sample st =
     start_new (Sample.ts sample) (stack sample) (end_disappeared sample st)"

text \<open>The outer loop over the samples, from a given loop state.\<close>

fun samples_loop :: "'ts Sample list \<Rightarrow> 'ts synth_state \<Rightarrow> 'ts synth_state" where
  "samples_loop [] st = st"
| "samples_loop (sample # rest) st = samples_loop rest (process_sample sample st)"

definition convertToTrace :: "'ts Sample list \<Rightarrow> 'ts Event list" where
  "convertToTrace samples = fst (samples_loop samples ([], []))"

text \<open>The running stack when the outer loop is left (the source drops it on return).\<close>

definition final_running :: "'ts Sample list \<Rightarrow> string list" where
  "final_running samples = snd (samples_loop samples ([], []))"


section \<open>The instrumentor (src/include/instrumentor.h)\<close>

type_synonym u64 = "64 word"
type_synonym u32 = "32 word"

text \<open>A C++ \<open>int\<close>: 32 bits, read as a signed number by \<open>sint\<close>.\<close>

type_synonym cpp_int = "32 word"

record ProfileResult =
  name :: string
  startUs :: u64
  endUs :: u64
  threadId :: u32

record InstrumentationSession =
  name :: string

subsection \<open>The output stream and the files it writes\<close>

text \<open>
  \<open>std::ofstream\<close> is library code; the model keeps what the instrumentor can observe of
  it. A stream is associated with at most one file (\<open>open_file\<close>) and has an error
  state (\<open>failed\<close>: \<open>failbit\<close> or \<open>badbit\<close> is set). The stream's exception mask is never
  set by the source, so no stream operation throws: a failure only sets the error state.
  \<^item> \<open>open\<close> fails when the stream is already open or the file cannot be opened; on
    success the file is created or truncated and the error state is cleared.
  \<^item> \<open>operator<<\<close> does nothing on a stream in the error state; otherwise the characters
    are appended to the file, and a write that cannot be done sets the error state.
  \<^item> \<open>close\<close> on a stream that is not open sets the error state.
  \<^item> every operation of the instrumentor ends with \<open>flush\<close>, so buffering is not
    modelled and \<open>flush\<close> is the identity.
  The environment \<open>sink_env\<close> decides which file a path names (\<open>resolve\<close>: two paths can
  name one file, as \<open>trace.json\<close> and \<open>./trace.json\<close> do), whether a path can be opened, and
  whether a file can be written. Files are known by the name \<open>resolve\<close> gives them.
\<close>

record ofstream =
  open_file :: "string option"
  failed :: bool

type_synonym filesystem = "string \<rightharpoonup> string"

record sink_env =
  resolve :: "string \<Rightarrow> string"
  openable :: "string \<Rightarrow> bool"
  writable :: "string \<Rightarrow> bool"

text \<open>
  The singleton \<open>Instrumentor\<close> with its five members; \<open>world\<close> adds the files the
  stream writes. \<open>m_profileCount\<close> is a C++ \<open>int\<close>. Incrementing it at \<open>2^31 - 1\<close> is
  undefined behaviour in C++; the model wraps around there, as the hardware does, and what
  is proved of sessions of many intervals is proved of fewer than \<open>2^31\<close> of them.
\<close>

record Instrumentor =
  m_session :: InstrumentationSession
  m_currentSessionActive :: bool
  m_outputStream :: ofstream
  m_profileCount :: cpp_int
  m_sessionStartUs :: u64

record world = Instrumentor +
  files :: filesystem

definition stream_open :: "sink_env \<Rightarrow> string \<Rightarrow> world \<Rightarrow> world" where
  "stream_open env path w =
     (if open_file (m_outputStream w) \<noteq> None then w\<lparr>m_outputStream := (m_outputStream w)\<lparr>failed := True\<rparr>\<rparr>
      else if openable env path
      then w\<lparr>m_outputStream := \<lparr>open_file = Some (resolve env path), failed = False\<rparr>,
             files := (files w)(resolve env path \<mapsto> [])\<rparr>
      else w\<lparr>m_outputStream := (m_outputStream w)\<lparr>failed := True\<rparr>\<rparr>)"

definition stream_put :: "sink_env \<Rightarrow> string \<Rightarrow> world \<Rightarrow> world" where
  "stream_put env s w =
     (if failed (m_outputStream w) \<or> s = [] then w
      else case open_file (m_outputStream w) of
             None \<Rightarrow> w\<lparr>m_outputStream := (m_outputStream w)\<lparr>failed := True\<rparr>\<rparr>
           | Some f \<Rightarrow>
               if writable env f
               then w\<lparr>files := (files w)(f \<mapsto>
                          (case files w f of None \<Rightarrow> [] | Some old \<Rightarrow> old) @ s)\<rparr>
               else w\<lparr>m_outputStream := (m_outputStream w)\<lparr>failed := True\<rparr>\<rparr>)"

definition stream_close :: "world \<Rightarrow> world" where
  "stream_close w =
     (case open_file (m_outputStream w) of
        None \<Rightarrow> w\<lparr>m_outputStream := (m_outputStream w)\<lparr>failed := True\<rparr>\<rparr>
      | Some f \<Rightarrow> w\<lparr>m_outputStream := (m_outputStream w)\<lparr>open_file := None\<rparr>\<rparr>)"

text \<open>\<open>operator<<\<close> on an unsigned integer prints it in decimal.\<close>

fun decimal :: "nat \<Rightarrow> string" where
  "decimal n =
     (if n < 10 then [''0123456789'' ! n]
      else decimal (n div 10) @ [''0123456789'' ! (n mod 10)])"

declare decimal.simps [simp del]

text \<open>\<open>std::replace\<close> over a whole string.\<close>

definition std_replace :: "char \<Rightarrow> char \<Rightarrow> string \<Rightarrow> string" where
  "std_replace old new s = map (\<lambda>c. if c = old then new else c) s"

subsection \<open>The operations of \<open>Instrumentor\<close>\<close>

definition Instrumentor_init :: "filesystem \<Rightarrow> world" where
  "Instrumentor_init fs =
     \<lparr>m_session = \<lparr>InstrumentationSession.name = []\<rparr>, m_currentSessionActive = False,
      m_outputStream = \<lparr>open_file = None, failed = False\<rparr>, m_profileCount = 0,
      m_sessionStartUs = 0, files = fs\<rparr>"

definition writeHeader :: "sink_env \<Rightarrow> world \<Rightarrow> world" where
  "writeHeader env w = stream_put env ''{\"otherData\": {},\"traceEvents\":['' w"

definition writeFooter :: "sink_env \<Rightarrow> world \<Rightarrow> world" where
  "writeFooter env w = stream_put env '']}'' w"

definition endSession :: "sink_env \<Rightarrow> world \<Rightarrow> world" where
  "endSession env w =
     (if \<not> m_currentSessionActive w then w
      else (stream_close (writeFooter env w))
             \<lparr>m_currentSessionActive := False, m_profileCount := 0, m_sessionStartUs := 0\<rparr>)"

text \<open>\<open>now\<close> is the value \<open>nowUs()\<close> returns in the last line of \<open>beginSession\<close>.\<close>

definition beginSession :: "sink_env \<Rightarrow> u64 \<Rightarrow> string \<Rightarrow> string \<Rightarrow> world \<Rightarrow> world" where
  "beginSession env now nm filepath w =
     (let w1 = (if m_currentSessionActive w then endSession env w else w);
          w2 = stream_open env filepath w1;
          w3 = writeHeader env w2
      in w3\<lparr>m_session := \<lparr>InstrumentationSession.name = nm\<rparr>,
             m_currentSessionActive := True, m_profileCount := 0, m_sessionStartUs := now\<rparr>)"

definition writeProfile :: "sink_env \<Rightarrow> ProfileResult \<Rightarrow> world \<Rightarrow> world" where
  "writeProfile env result w =
     (if \<not> m_currentSessionActive w then w
      else
        let r1 = result\<lparr>startUs := startUs result - m_sessionStartUs w\<rparr>;
            r2 = r1\<lparr>endUs := endUs r1 - m_sessionStartUs w\<rparr>;
            w1 = (if sint (m_profileCount w) > 0 then stream_put env '', '' w else w)
                   \<lparr>m_profileCount := m_profileCount w + 1\<rparr>;
            r3 = r2\<lparr>ProfileResult.name := std_replace (CHR 0x22) (CHR 0x27) (ProfileResult.name r2)\<rparr>;
            w2 = stream_put env ''{'' w1;
            w3 = stream_put env '','' (stream_put env (decimal (unat (endUs r3 - startUs r3)))
                   (stream_put env ''\"dur\":'' w2));
            w4 = stream_put env ''\"cat\":\"function\",'' w3;
            w5 = stream_put env ''\",'' (stream_put env (ProfileResult.name r3)
                   (stream_put env ''\"name\":\"'' w4));
            w6 = stream_put env ''\"ph\":\"X\",'' w5;
            w7 = stream_put env ''\"pid\":0,'' w6;
            w8 = stream_put env '','' (stream_put env (decimal (unat (threadId r3)))
                   (stream_put env ''\"tid\":'' w7));
            w9 = stream_put env (decimal (unat (startUs r3))) (stream_put env ''\"ts\":'' w8)
        in stream_put env ''}'' w9)"

subsection \<open>\<open>InstrumentationTimer\<close>\<close>

text \<open>
  \<open>m_name\<close> is a \<open>const char *\<close> that the caller keeps valid; the model holds the string.
  \<open>stop\<close> calls \<open>Instrumentor::get().writeProfile\<close> at most once. The model returns that
  call as data (the list of the \<open>ProfileResult\<close>s submitted, empty or a singleton), so
  that submissions can be counted; \<open>submit\<close> runs the calls on the instrumentor.
  \<open>now\<close> and \<open>tid\<close> are what \<open>nowUs()\<close> and the hash of the thread id return.
\<close>

record InstrumentationTimer =
  m_name :: string
  m_stopped :: bool
  m_startUs :: u64

definition InstrumentationTimer_ctor :: "string \<Rightarrow> u64 \<Rightarrow> InstrumentationTimer" where
  "InstrumentationTimer_ctor nm now = \<lparr>m_name = nm, m_stopped = False, m_startUs = now\<rparr>"

definition stop :: "u64 \<Rightarrow> u32 \<Rightarrow> InstrumentationTimer \<Rightarrow> InstrumentationTimer \<times> ProfileResult list" where
  "stop now tid t =
     (if m_stopped t then (t, [])
      else (t\<lparr>m_stopped := True\<rparr>,
            [\<lparr>ProfileResult.name = m_name t, startUs = m_startUs t, endUs = now, threadId = tid\<rparr>]))"

text \<open>The destructor; the object is gone afterwards, only its submissions remain.\<close>

definition InstrumentationTimer_dtor :: "u64 \<Rightarrow> u32 \<Rightarrow> InstrumentationTimer \<Rightarrow> ProfileResult list" where
  "InstrumentationTimer_dtor now tid t = (if \<not> m_stopped t then snd (stop now tid t) else [])"

definition submit :: "sink_env \<Rightarrow> ProfileResult list \<Rightarrow> world \<Rightarrow> world" where
  "submit env rs w = foldl (\<lambda>w r. writeProfile env r w) w rs"

section \<open>What the specification says of the synthesizer\<close>

text \<open>
  One sample, in the words of the specification, without the loops. From the top of the
  running stack, the frames that occur nowhere in the sample's stack are closed, up to the
  first frame that does occur (\<open>stale\<close>, in closing order); the others are kept. Then the
  names of the sample's stack that are not kept are opened root first, each once
  (\<open>fresh\<close>: \<open>remdups\<close> keeps the last copy of a name, so it is used on the reversed list
  to keep the first).
\<close>

definition spec_process_sample :: "'ts Sample \<Rightarrow> 'ts synth_state \<Rightarrow> 'ts synth_state" where
  "spec_process_sample sample st =
     (let t = Sample.ts sample;
          stale = takeWhile (\<lambda>f. f \<notin> set (stack sample)) (rev (snd st));
          kept = rev (dropWhile (\<lambda>f. f \<notin> set (stack sample)) (rev (snd st)));
          fresh = rev (remdups (rev (filter (\<lambda>f. f \<notin> set kept) (stack sample))))
      in (fst st
            @ map (\<lambda>f. \<lparr>Event.ts = t, kind = ''end'', Event.name = f\<rparr>) stale
            @ map (\<lambda>f. \<lparr>Event.ts = t, kind = ''start'', Event.name = f\<rparr>) fresh,
          kept @ fresh))"

text \<open>The number of events of kind \<open>k\<close> for the frame \<open>f\<close>.\<close>

definition count_events :: "string \<Rightarrow> string \<Rightarrow> 'ts Event list \<Rightarrow> nat" where
  "count_events k f evs = length (filter (\<lambda>e. kind e = k \<and> Event.name e = f) evs)"

text \<open>
  The loop invariant of \<open>convertToTrace\<close>: no name is twice on the running stack, and a
  frame has one more start than end events exactly when it is on the running stack.
\<close>

definition balanced :: "'ts synth_state \<Rightarrow> bool" where
  "balanced st \<longleftrightarrow>
     distinct (snd st) \<and>
     (\<forall>f. count_events ''start'' f (fst st) =
            count_events ''end'' f (fst st) + (if f \<in> set (snd st) then 1 else 0))"

section \<open>What the specification says of the output document\<close>

text \<open>
  The event object of the output format: the fields \<open>dur\<close>, \<open>cat\<close>, \<open>name\<close>, \<open>ph\<close>,
  \<open>pid\<close>, \<open>tid\<close>, \<open>ts\<close> in this order, for given values of the four that vary.
\<close>

definition event_fields :: "nat \<Rightarrow> string \<Rightarrow> nat \<Rightarrow> nat \<Rightarrow> string" where
  "event_fields dur nm tid tstamp =
     ''{\"dur\":'' @ decimal dur @ '',\"cat\":\"function\",\"name\":\"'' @ nm
       @ ''\",\"ph\":\"X\",\"pid\":0,\"tid\":'' @ decimal tid @ '',\"ts\":'' @ decimal tstamp @ ''}''"

text \<open>The event object of an interval in a session with the baseline \<open>base\<close>.\<close>

definition event_json :: "u64 \<Rightarrow> ProfileResult \<Rightarrow> string" where
  "event_json base r =
     event_fields (unat (endUs r - startUs r))
       (std_replace (CHR 0x22) (CHR 0x27) (ProfileResult.name r))
       (unat (threadId r)) (unat (startUs r - base))"

text \<open>What precedes an event object: nothing before the first, comma and space otherwise.\<close>

definition separator :: "world \<Rightarrow> string" where
  "separator w = (if sint (m_profileCount w) > 0 then '', '' else [])"

text \<open>The stream is open on the file \<open>p\<close>, not in the error state, and \<open>p\<close> can be written.\<close>

definition sink_ready :: "sink_env \<Rightarrow> string \<Rightarrow> world \<Rightarrow> bool" where
  "sink_ready env p w \<longleftrightarrow>
     open_file (m_outputStream w) = Some p \<and> \<not> failed (m_outputStream w) \<and> writable env p"

text \<open>The characters of the file \<open>p\<close>; none when there is no such file.\<close>

definition contents :: "world \<Rightarrow> string \<Rightarrow> string" where
  "contents w p = (case files w p of None \<Rightarrow> [] | Some s \<Rightarrow> s)"

section \<open>Concrete environments and worlds for the examples\<close>

definition healthy_env :: sink_env where
  "healthy_env = \<lparr>resolve = (\<lambda>p. p), openable = (\<lambda>p. True), writable = (\<lambda>p. True)\<rparr>"

definition unopenable_env :: sink_env where
  "unopenable_env = \<lparr>resolve = (\<lambda>p. p), openable = (\<lambda>p. False), writable = (\<lambda>p. True)\<rparr>"

definition unwritable_env :: sink_env where
  "unwritable_env = \<lparr>resolve = (\<lambda>p. p), openable = (\<lambda>p. True), writable = (\<lambda>p. False)\<rparr>"

text \<open>An environment in which \<open>./name\<close> and \<open>name\<close> are the same file.\<close>

definition dot_slash_env :: sink_env where
  "dot_slash_env =
     \<lparr>resolve = (\<lambda>p. if take 2 p = ''./'' then drop 2 p else p),
      openable = (\<lambda>p. True), writable = (\<lambda>p. True)\<rparr>"

definition empty_fs :: filesystem where
  "empty_fs = Map.empty"

text \<open>A session begun at clock value 100 on \<open>trace.json\<close>, nothing recorded yet.\<close>

definition recording_world :: world where
  "recording_world =
     beginSession healthy_env 100 ''Sanitize'' ''trace.json'' (Instrumentor_init empty_fs)"

section \<open>The events of a sample, from the stacks alone\<close>

text \<open>
  The kinds and names of the events of one sample, and the running stack after it, as
  functions of the running stack before it and of the sample's stack; no timestamp occurs.
  \<open>stamp\<close> makes an event of a timestamp and a pair of kind and name.
\<close>

definition stack_events :: "string list \<Rightarrow> string list \<Rightarrow> (string \<times> string) list" where
  "stack_events running stk =
     (let stale = takeWhile (\<lambda>f. f \<notin> set stk) (rev running);
          kept = rev (dropWhile (\<lambda>f. f \<notin> set stk) (rev running));
          fresh = rev (remdups (rev (filter (\<lambda>f. f \<notin> set kept) stk)))
      in map (Pair ''end'') stale @ map (Pair ''start'') fresh)"

definition stack_after :: "string list \<Rightarrow> string list \<Rightarrow> string list" where
  "stack_after running stk =
     (let kept = rev (dropWhile (\<lambda>f. f \<notin> set stk) (rev running));
          fresh = rev (remdups (rev (filter (\<lambda>f. f \<notin> set kept) stk)))
      in kept @ fresh)"

definition stamp :: "'ts \<Rightarrow> string \<times> string \<Rightarrow> 'ts Event" where
  "stamp t kf = \<lparr>Event.ts = t, kind = fst kf, Event.name = snd kf\<rparr>"

section \<open>The document of a session\<close>

text \<open>
  The event objects of a document: separated by comma and space, nothing before the first.
\<close>

fun join_events :: "string list \<Rightarrow> string" where
  "join_events [] = []"
| "join_events [e] = e"
| "join_events (e # es) = e @ '', '' @ join_events es"

text \<open>
  The complete document of a session with the baseline \<open>base\<close> in which the intervals
  \<open>rs\<close> were recorded: header, event objects, footer.
\<close>

definition document :: "u64 \<Rightarrow> ProfileResult list \<Rightarrow> string" where
  "document base rs =
     ''{\"otherData\": {},\"traceEvents\":['' @ join_events (map (event_json base) rs) @ '']}''"

section \<open>Valid JSON texts\<close>

text \<open>
  Whether a string is a JSON text (RFC 8259), decided in two passes. The first reads the
  characters and gives the tokens: the six structural characters, strings, numbers and the
  literals \<open>true\<close>, \<open>false\<close>, \<open>null\<close>, with white space between tokens. A string runs from
  a double quote to the next one that is not escaped; in between are characters from 0x20
  on other than the double quote and the backslash, in well-formed UTF-8, and the escapes
  (a backslash and one of the eight characters that may follow it, or \<open>u\<close> and four
  hexadecimal digits). A
  number is an optional minus, \<open>0\<close> or digits without a leading zero, an optional fraction
  and an optional exponent. The second pass reads the tokens with a stack of the open
  objects and arrays and checks that they make one value.
\<close>

datatype json_token =
  LBrace | RBrace | LBracket | RBracket | Colon | Comma | TString | TNumber | TLiteral

datatype num_state = NMinus | NZero | NInt | NDot | NFrac | NExp | NExpSign | NExpDigits

datatype lex_state =
    Outside
  | InString
  | Escape
  | Unicode nat
  | Utf8 nat nat nat
  | InNumber num_state
  | InLiteral string

text \<open>The code of a character, as a number.\<close>

definition byte :: "char \<Rightarrow> nat" where
  "byte c = of_char c"

definition is_digit :: "char \<Rightarrow> bool" where
  "is_digit c \<longleftrightarrow> 48 \<le> byte c \<and> byte c \<le> 57"

definition is_hex :: "char \<Rightarrow> bool" where
  "is_hex c \<longleftrightarrow> is_digit c \<or> (65 \<le> byte c \<and> byte c \<le> 70) \<or> (97 \<le> byte c \<and> byte c \<le> 102)"

text \<open>Inside a number: the next state for a character that continues the number.\<close>

fun num_step :: "num_state \<Rightarrow> char \<Rightarrow> num_state option" where
  "num_step NMinus c = (if c = CHR ''0'' then Some NZero else if is_digit c then Some NInt else None)"
| "num_step NZero c =
     (if c = CHR ''.'' then Some NDot else if c = CHR ''e'' \<or> c = CHR ''E'' then Some NExp else None)"
| "num_step NInt c =
     (if is_digit c then Some NInt else if c = CHR ''.'' then Some NDot
      else if c = CHR ''e'' \<or> c = CHR ''E'' then Some NExp else None)"
| "num_step NDot c = (if is_digit c then Some NFrac else None)"
| "num_step NFrac c =
     (if is_digit c then Some NFrac else if c = CHR ''e'' \<or> c = CHR ''E'' then Some NExp else None)"
| "num_step NExp c =
     (if c = CHR ''+'' \<or> c = CHR ''-'' then Some NExpSign
      else if is_digit c then Some NExpDigits else None)"
| "num_step NExpSign c = (if is_digit c then Some NExpDigits else None)"
| "num_step NExpDigits c = (if is_digit c then Some NExpDigits else None)"

fun num_final :: "num_state \<Rightarrow> bool" where
  "num_final NZero = True"
| "num_final NInt = True"
| "num_final NFrac = True"
| "num_final NExpDigits = True"
| "num_final ns = False"

text \<open>Between tokens: the state after a character, and the tokens it completes.\<close>

definition start_token :: "char \<Rightarrow> (lex_state \<times> json_token list) option" where
  "start_token c =
     (if c = CHR '' '' \<or> byte c = 9 \<or> byte c = 10 \<or> byte c = 13 then Some (Outside, [])
      else if c = CHR ''{'' then Some (Outside, [LBrace])
      else if c = CHR ''}'' then Some (Outside, [RBrace])
      else if c = CHR ''['' then Some (Outside, [LBracket])
      else if c = CHR '']'' then Some (Outside, [RBracket])
      else if c = CHR '':'' then Some (Outside, [Colon])
      else if c = CHR '','' then Some (Outside, [Comma])
      else if c = CHR 0x22 then Some (InString, [])
      else if c = CHR ''-'' then Some (InNumber NMinus, [])
      else if c = CHR ''0'' then Some (InNumber NZero, [])
      else if is_digit c then Some (InNumber NInt, [])
      else if c = CHR ''t'' then Some (InLiteral ''rue'', [])
      else if c = CHR ''f'' then Some (InLiteral ''alse'', [])
      else if c = CHR ''n'' then Some (InLiteral ''ull'', [])
      else None)"

text \<open>
  Inside a string. A byte from 0x80 on starts a UTF-8 sequence: \<open>Utf8 lo hi n\<close> expects
  a byte between \<open>lo\<close> and \<open>hi\<close> and then \<open>n\<close> more continuation bytes.
\<close>

definition string_char :: "char \<Rightarrow> (lex_state \<times> json_token list) option" where
  "string_char c =
     (let b = byte c in
      if c = CHR 0x22 then Some (Outside, [TString])
      else if c = CHR 0x5C then Some (Escape, [])
      else if b < 32 then None
      else if b < 128 then Some (InString, [])
      else if 194 \<le> b \<and> b \<le> 223 then Some (Utf8 128 191 0, [])
      else if b = 224 then Some (Utf8 160 191 1, [])
      else if b = 237 then Some (Utf8 128 159 1, [])
      else if 225 \<le> b \<and> b \<le> 239 then Some (Utf8 128 191 1, [])
      else if b = 240 then Some (Utf8 144 191 2, [])
      else if 241 \<le> b \<and> b \<le> 243 then Some (Utf8 128 191 2, [])
      else if b = 244 then Some (Utf8 128 143 2, [])
      else None)"

fun lex_step :: "lex_state \<Rightarrow> char \<Rightarrow> (lex_state \<times> json_token list) option" where
  "lex_step Outside c = start_token c"
| "lex_step InString c = string_char c"
| "lex_step Escape c =
     (if c \<in> set [CHR 0x22, CHR 0x5C, CHR ''/'', CHR ''b'', CHR ''f'', CHR ''n'', CHR ''r'', CHR ''t'']
      then Some (InString, [])
      else if c = CHR ''u'' then Some (Unicode 4, [])
      else None)"
| "lex_step (Unicode n) c =
     (if is_hex c then (if n \<le> 1 then Some (InString, []) else Some (Unicode (n - 1), []))
      else None)"
| "lex_step (Utf8 lo hi n) c =
     (if lo \<le> byte c \<and> byte c \<le> hi
      then (if n = 0 then Some (InString, []) else Some (Utf8 128 191 (n - 1), []))
      else None)"
| "lex_step (InNumber ns) c =
     (case num_step ns c of
        Some ns' \<Rightarrow> Some (InNumber ns', [])
      | None \<Rightarrow>
          if num_final ns
          then (case start_token c of
                  None \<Rightarrow> None
                | Some (st, toks) \<Rightarrow> Some (st, TNumber # toks))
          else None)"
| "lex_step (InLiteral rest) c =
     (case rest of
        [] \<Rightarrow> None
      | x # xs \<Rightarrow>
          if c = x then (if xs = [] then Some (Outside, [TLiteral]) else Some (InLiteral xs, []))
          else None)"

fun lex_run :: "lex_state \<Rightarrow> string \<Rightarrow> (lex_state \<times> json_token list) option" where
  "lex_run st [] = Some (st, [])"
| "lex_run st (c # cs) =
     (case lex_step st c of
        None \<Rightarrow> None
      | Some (st1, toks1) \<Rightarrow>
          (case lex_run st1 cs of
             None \<Rightarrow> None
           | Some (st2, toks2) \<Rightarrow> Some (st2, toks1 @ toks2)))"

text \<open>At the end of the text: only a complete number is still open.\<close>

fun lex_finish :: "lex_state \<Rightarrow> json_token list option" where
  "lex_finish Outside = Some []"
| "lex_finish (InNumber ns) = (if num_final ns then Some [TNumber] else None)"
| "lex_finish st = None"

text \<open>
  The second pass. \<open>expect\<close> is what may come next; the stack holds the objects and arrays
  that are open, the innermost first.
\<close>

datatype container = Obj | Arr

datatype expect = Value | ObjFirst | ObjKey | ObjColon | ObjNext | ArrFirst | ArrNext | Done

type_synonym pda_state = "expect \<times> container list"

fun after_value :: "container list \<Rightarrow> pda_state" where
  "after_value [] = (Done, [])"
| "after_value (Obj # stk) = (ObjNext, Obj # stk)"
| "after_value (Arr # stk) = (ArrNext, Arr # stk)"

fun begin_value :: "json_token \<Rightarrow> container list \<Rightarrow> pda_state option" where
  "begin_value TString stk = Some (after_value stk)"
| "begin_value TNumber stk = Some (after_value stk)"
| "begin_value TLiteral stk = Some (after_value stk)"
| "begin_value LBrace stk = Some (ObjFirst, Obj # stk)"
| "begin_value LBracket stk = Some (ArrFirst, Arr # stk)"
| "begin_value t stk = None"

fun pda_step :: "pda_state \<Rightarrow> json_token \<Rightarrow> pda_state option" where
  "pda_step (Value, stk) t = begin_value t stk"
| "pda_step (ArrFirst, Arr # stk) t =
     (if t = RBracket then Some (after_value stk) else begin_value t (Arr # stk))"
| "pda_step (ObjFirst, Obj # stk) t =
     (if t = RBrace then Some (after_value stk)
      else if t = TString then Some (ObjColon, Obj # stk) else None)"
| "pda_step (ObjKey, stk) t = (if t = TString then Some (ObjColon, stk) else None)"
| "pda_step (ObjColon, stk) t = (if t = Colon then Some (Value, stk) else None)"
| "pda_step (ObjNext, Obj # stk) t =
     (if t = Comma then Some (ObjKey, Obj # stk)
      else if t = RBrace then Some (after_value stk) else None)"
| "pda_step (ArrNext, Arr # stk) t =
     (if t = Comma then Some (Value, Arr # stk)
      else if t = RBracket then Some (after_value stk) else None)"
| "pda_step st t = None"

fun pda_run :: "json_token list \<Rightarrow> pda_state \<Rightarrow> pda_state option" where
  "pda_run [] st = Some st"
| "pda_run (t # toks) st = (case pda_step st t of None \<Rightarrow> None | Some st1 \<Rightarrow> pda_run toks st1)"

definition json_valid :: "string \<Rightarrow> bool" where
  "json_valid s =
     (case lex_run Outside s of
        None \<Rightarrow> False
      | Some (st, toks) \<Rightarrow>
          (case lex_finish st of
             None \<Rightarrow> False
           | Some fin \<Rightarrow> pda_run (toks @ fin) (Value, []) = Some (Done, [])))"

text \<open>
  The characters between the quotes of a string: read from inside a string, they end
  inside the string and complete no token.
\<close>

definition json_string_body :: "string \<Rightarrow> bool" where
  "json_string_body s \<longleftrightarrow> lex_run InString s = Some (InString, [])"


text \<open>The name of an interval, as \<open>writeProfile\<close> writes it, is the body of a string.\<close>

definition json_name :: "ProfileResult \<Rightarrow> bool" where
  "json_name r \<longleftrightarrow> json_string_body (std_replace (CHR 0x22) (CHR 0x27) (ProfileResult.name r))"

text \<open>The tokens of an event object, and of \<open>n\<close> event objects separated by commas.\<close>

definition event_tokens :: "json_token list" where
  "event_tokens =
     [LBrace, TString, Colon, TNumber, Comma, TString, Colon, TString, Comma,
      TString, Colon, TString, Comma, TString, Colon, TString, Comma,
      TString, Colon, TNumber, Comma, TString, Colon, TNumber, Comma,
      TString, Colon, TNumber, RBrace]"

fun events_tokens :: "nat \<Rightarrow> json_token list" where
  "events_tokens 0 = []"
| "events_tokens (Suc 0) = event_tokens"
| "events_tokens (Suc (Suc n)) = event_tokens @ Comma # events_tokens (Suc n)"

section \<open>Programs that use timers\<close>

text \<open>
  What a program does with its timers, one operation at a time: it constructs a timer
  (a new object, named here by a number), calls \<open>stop\<close> on a live one, or leaves the scope
  of a live one, which runs its destructor. Each operation carries the values the clock and
  the thread-id hash return in it. \<open>timer_step\<close> gives the live timers afterwards and what
  the operation submits to the instrumentor; it is \<open>None\<close> for what no C++ program can do
  (constructing an object that is live, using one that is not).
\<close>

datatype timer_op =
    Construct nat string u64
  | Stop nat u64 u32
  | Destroy nat u64 u32

type_synonym timers = "nat \<rightharpoonup> InstrumentationTimer"

fun timer_step :: "timer_op \<Rightarrow> timers \<Rightarrow> (timers \<times> ProfileResult list) option" where
  "timer_step (Construct i nm now) tm =
     (if tm i \<noteq> None then None else Some (tm(i \<mapsto> InstrumentationTimer_ctor nm now), []))"
| "timer_step (Stop i now tid) tm =
     (case tm i of
        None \<Rightarrow> None
      | Some t \<Rightarrow> Some (tm(i \<mapsto> fst (stop now tid t)), snd (stop now tid t)))"
| "timer_step (Destroy i now tid) tm =
     (case tm i of
        None \<Rightarrow> None
      | Some t \<Rightarrow> Some (tm(i := None), InstrumentationTimer_dtor now tid t))"

fun timer_run :: "timer_op list \<Rightarrow> timers \<Rightarrow> (timers \<times> ProfileResult list) option" where
  "timer_run [] tm = Some (tm, [])"
| "timer_run (c # cs) tm =
     (case timer_step c tm of
        None \<Rightarrow> None
      | Some (tm1, subs1) \<Rightarrow>
          (case timer_run cs tm1 of
             None \<Rightarrow> None
           | Some (tm2, subs2) \<Rightarrow> Some (tm2, subs1 @ subs2)))"

fun is_Construct :: "timer_op \<Rightarrow> bool" where
  "is_Construct (Construct i nm now) = True"
| "is_Construct c = False"

definition no_timers :: timers where
  "no_timers = Map.empty"

text \<open>The live timers that have not been stopped.\<close>

definition running_timers :: "timers \<Rightarrow> nat set" where
  "running_timers tm = {i. \<exists>t. tm i = Some t \<and> \<not> m_stopped t}"

section \<open>The example of \<open>main\<close>\<close>

text \<open>
  C1. For the samples \<open>(7.5,[main])\<close>, \<open>(9.2,[main,my_fn])\<close>, \<open>(10.7,[main])\<close> the
  synthesizer returns exactly: start of \<open>main\<close> at 7.5, start of \<open>my_fn\<close> at 9.2, end of
  \<open>my_fn\<close> at 10.7, and nothing after that; \<open>main\<close> gets no end event.
\<close>

theorem convertToTrace_main_example:
  "convertToTrace
     [\<lparr>Sample.ts = 7.5 :: real, stack = [''main'']\<rparr>,
      \<lparr>Sample.ts = 9.2, stack = [''main'', ''my_fn'']\<rparr>,
      \<lparr>Sample.ts = 10.7, stack = [''main'']\<rparr>]
   = [\<lparr>Event.ts = 7.5, kind = ''start'', Event.name = ''main''\<rparr>,
      \<lparr>Event.ts = 9.2, kind = ''start'', Event.name = ''my_fn''\<rparr>,
      \<lparr>Event.ts = 10.7, kind = ''end'', Event.name = ''my_fn''\<rparr>]"
  by (simp add: convertToTrace_def process_sample_def end_disappeared.simps)

section \<open>One sample: closing, then opening\<close>

lemma end_disappeared_closed_form:
  "end_disappeared sample (result, running) =
     (result @ map (\<lambda>f. \<lparr>Event.ts = Sample.ts sample, kind = ''end'', Event.name = f\<rparr>)
                 (takeWhile (\<lambda>f. f \<notin> set (stack sample)) (rev running)),
      rev (dropWhile (\<lambda>f. f \<notin> set (stack sample)) (rev running)))"
proof (induction running arbitrary: result rule: rev_induct)
  case Nil
  show ?case by (simp add: end_disappeared.simps)
next
  case (snoc x xs)
  show ?case
  proof (cases "x \<in> set (stack sample)")
    case True
    then show ?thesis by (simp add: end_disappeared.simps [of sample result "xs @ [x]"])
  next
    case False
    then show ?thesis
      by (simp add: end_disappeared.simps [of sample result "xs @ [x]"] snoc.IH)
  qed
qed

lemma remdups_snoc: "remdups (ys @ [f]) = remdups (filter (\<lambda>g. g \<noteq> f) ys) @ [f]"
  by (induction ys) auto

lemma start_new_closed_form:
  "start_new t stk (result, running) =
     (result @ map (\<lambda>f. \<lparr>Event.ts = t, kind = ''start'', Event.name = f\<rparr>)
                 (rev (remdups (rev (filter (\<lambda>f. f \<notin> set running) stk)))),
      running @ rev (remdups (rev (filter (\<lambda>f. f \<notin> set running) stk))))"
proof (induction stk arbitrary: result running)
  case Nil
  show ?case by simp
next
  case (Cons f rest)
  show ?case
  proof (cases "f \<in> set running")
    case True
    then show ?thesis by (simp add: Cons.IH)
  next
    case False
    have flt: "filter (\<lambda>g. g \<noteq> f) (rev (filter (\<lambda>g. g \<notin> set running) rest))
                 = rev (filter (\<lambda>g. g \<notin> set (running @ [f])) rest)"
      by (simp add: rev_filter [symmetric] conj_commute)
    from False show ?thesis
      by (simp add: Cons.IH remdups_snoc flt del: set_append)
  qed
qed

lemma process_sample_closed_form: "process_sample sample st = spec_process_sample sample st"
  by (cases st) (simp add: process_sample_def spec_process_sample_def Let_def
      end_disappeared_closed_form start_new_closed_form)

lemma samples_loop_foldl:
  "samples_loop samples st = foldl (\<lambda>st sample. spec_process_sample sample st) st samples"
  by (induction samples arbitrary: st) (simp_all add: process_sample_closed_form)

text \<open>
  C2. Processing one sample first ends the stale frames: from the top of the running
  stack, every frame whose name occurs nowhere in the sample's stack gets an end event at
  the sample's timestamp and is popped, until the top frame occurs in the sample's stack or
  the running stack is empty. Only then every name of the sample's stack that is not on the
  running stack gets a start event at the sample's timestamp and is pushed, root first.
  \<open>convertToTrace\<close> does this for each sample in turn, from the empty running stack.
\<close>

theorem process_sample_closes_then_opens:
  "process_sample sample st = spec_process_sample sample st \<and>
   convertToTrace samples =
     fst (foldl (\<lambda>st sample. spec_process_sample sample st) ([], []) samples)"
  by (simp add: process_sample_closed_form convertToTrace_def samples_loop_foldl)

section \<open>Frames left open\<close>

lemma count_events_snoc:
  "count_events k f (evs @ [e]) =
     count_events k f evs + (if kind e = k \<and> Event.name e = f then 1 else 0)"
  by (simp add: count_events_def)

lemma in_set_butlast_distinct:
  "distinct xs \<Longrightarrow> xs \<noteq> [] \<Longrightarrow> f \<in> set (butlast xs) \<longleftrightarrow> f \<in> set xs \<and> f \<noteq> last xs"
  by (induction xs rule: rev_induct) auto

lemma balanced_end_disappeared:
  "balanced (result, running) \<Longrightarrow> balanced (end_disappeared sample (result, running))"
proof (induction sample "(result, running)" arbitrary: result running rule: end_disappeared.induct)
  case (1 sample result running)
  show ?case
  proof (cases "running \<noteq> [] \<and> last running \<notin> set (stack sample)")
    case False
    then show ?thesis using "1.prems" by (auto simp: end_disappeared.simps [of sample result running])
  next
    case True
    have "balanced (result @ [\<lparr>Event.ts = Sample.ts sample, kind = ''end'', Event.name = last running\<rparr>],
                    butlast running)"
      using "1.prems" True
      by (auto simp: balanced_def count_events_snoc distinct_butlast in_set_butlast_distinct)
    from "1.hyps" [OF True this] True show ?thesis
      by (simp add: end_disappeared.simps [of sample result running])
  qed
qed

lemma balanced_start_new:
  "balanced (result, running) \<Longrightarrow> balanced (start_new t stk (result, running))"
proof (induction stk arbitrary: result running)
  case Nil
  then show ?case by simp
next
  case (Cons f rest)
  show ?case
  proof (cases "f \<in> set running")
    case True
    then show ?thesis using Cons by simp
  next
    case False
    have "balanced (result @ [\<lparr>Event.ts = t, kind = ''start'', Event.name = f\<rparr>], running @ [f])"
      using Cons.prems False by (auto simp: balanced_def count_events_snoc)
    from Cons.IH [OF this] False show ?thesis by simp
  qed
qed


lemma balanced_process_sample: "balanced st \<Longrightarrow> balanced (process_sample sample st)"
proof -
  assume b: "balanced st"
  obtain result running where st: "st = (result, running)" by (cases st)
  obtain r2 run2 where e: "end_disappeared sample (result, running) = (r2, run2)"
    by (cases "end_disappeared sample (result, running)")
  from b st have "balanced (r2, run2)" using balanced_end_disappeared [of result running sample] e by simp
  then show ?thesis using st e by (simp add: process_sample_def balanced_start_new)
qed
lemma balanced_samples_loop: "balanced st \<Longrightarrow> balanced (samples_loop samples st)"
  by (induction samples arbitrary: st) (simp_all add: balanced_process_sample)

lemma samples_loop_append:
  "samples_loop (xs @ ys) st = samples_loop ys (samples_loop xs st)"
  by (induction xs arbitrary: st) simp_all


text \<open>
  C3. Nothing is emitted after the last sample: the output for \<open>samples @ [s]\<close> ends with
  the events of \<open>s\<close>, and the frames on the running stack when the loop is left get no
  end event. In the output a frame has one more start than end events if it is still on
  the running stack, and as many otherwise.
\<close>

theorem convertToTrace_no_trailing_end:
  "convertToTrace (samples @ [s]) =
     fst (spec_process_sample s (convertToTrace samples, final_running samples)) \<and>
   count_events ''start'' f (convertToTrace samples) =
     count_events ''end'' f (convertToTrace samples)
       + (if f \<in> set (final_running samples) then 1 else 0)"
proof -
  have "balanced (([], []) :: 'a synth_state)"
    by (simp add: balanced_def count_events_def)
  then have "balanced (samples_loop samples ([], []))"
    by (rule balanced_samples_loop)
  then show ?thesis
    by (simp add: balanced_def convertToTrace_def final_running_def samples_loop_append
        process_sample_closed_form)
qed

section \<open>Writing to the stream\<close>

lemma stream_put_put:
  "stream_put env b (stream_put env a w) = stream_put env (a @ b) w"
  by (auto simp: stream_put_def split: option.splits)

lemma stream_put_Nil: "stream_put env [] w = w"
  by (simp add: stream_put_def)

lemma stream_put_count:
  "(stream_put env s w)\<lparr>m_profileCount := c\<rparr> = stream_put env s (w\<lparr>m_profileCount := c\<rparr>)"
  by (auto simp: stream_put_def split: option.splits)

lemma writeProfile_active:
  "m_currentSessionActive w \<Longrightarrow>
   writeProfile env r w =
     (stream_put env (separator w @ event_json (m_sessionStartUs w) r) w)
       \<lparr>m_profileCount := m_profileCount w + 1\<rparr>"
  by (simp add: writeProfile_def Let_def stream_put_put stream_put_count separator_def
      event_json_def event_fields_def stream_put_Nil)

lemma decimal_nonempty: "decimal n \<noteq> []"
  by (subst decimal.simps) simp

lemma event_json_nonempty: "event_json base r \<noteq> []"
  by (simp add: event_json_def event_fields_def)

lemma stream_put_ready:
  "sink_ready env p w \<Longrightarrow> s \<noteq> [] \<Longrightarrow>
   stream_put env s w =
     w\<lparr>files := (files w)(p \<mapsto> (case files w p of None \<Rightarrow> [] | Some old \<Rightarrow> old) @ s)\<rparr>"
  by (simp add: stream_put_def sink_ready_def)


lemma writeProfile_contents:
  assumes "m_currentSessionActive w" "sink_ready env p w"
  shows "contents (writeProfile env r w) p =
           contents w p @ separator w @ event_json (m_sessionStartUs w) r"
  using assms
  by (simp add: writeProfile_active stream_put_ready event_json_nonempty contents_def)

lemma std_replace_props:
  "length (std_replace a b s) = length s \<and>
   (\<forall>i<length s. std_replace a b s ! i = (if s ! i = a then b else s ! i)) \<and>
   (a \<noteq> b \<longrightarrow> a \<notin> set (std_replace a b s))"
  by (auto simp: std_replace_def)

lemma recording_world_simps:
  "m_currentSessionActive recording_world"
  "sink_ready healthy_env ''trace.json'' recording_world"
  "contents recording_world ''trace.json'' = ''{\"otherData\": {},\"traceEvents\":[''"
  "m_sessionStartUs recording_world = 100"
  "separator recording_world = []"
  by (simp_all add: recording_world_def beginSession_def Instrumentor_init_def Let_def
      stream_open_def writeHeader_def stream_put_def healthy_env_def sink_ready_def contents_def
      empty_fs_def separator_def)

section \<open>No session, no effect\<close>

lemma submit_inactive: "\<not> m_currentSessionActive w \<Longrightarrow> submit env rs w = w"
  by (induction rs arbitrary: w) (simp_all add: submit_def writeProfile_def)

text \<open>
  C6. While no session is active, \<open>endSession\<close> and \<open>writeProfile\<close> return the world as it
  is: no file changes, and the active flag, the profile count, the baseline and the stream
  stay as they are. The same holds for whatever a timer's \<open>stop\<close> submits.
\<close>

theorem inactive_session_noop:
  "\<not> m_currentSessionActive w \<Longrightarrow>
   endSession env w = w \<and> writeProfile env r w = w \<and> submit env (snd (stop now tid t)) w = w"
  by (simp add: endSession_def writeProfile_def submit_inactive)

theorem inactive_session_noop_witness:
  "\<not> m_currentSessionActive (Instrumentor_init empty_fs) \<and>
   endSession healthy_env (Instrumentor_init empty_fs) = Instrumentor_init empty_fs \<and>
   writeProfile healthy_env
     \<lparr>ProfileResult.name = ''ScopeA'', startUs = 3, endUs = 8, threadId = 1\<rparr>
     (Instrumentor_init empty_fs) = Instrumentor_init empty_fs \<and>
   submit healthy_env (snd (stop 8 1 (InstrumentationTimer_ctor ''ScopeA'' 3)))
     (Instrumentor_init empty_fs) = Instrumentor_init empty_fs"
  using inactive_session_noop [of "Instrumentor_init empty_fs" healthy_env
      "\<lparr>ProfileResult.name = ''ScopeA'', startUs = 3, endUs = 8, threadId = 1\<rparr>" 8 1
      "InstrumentationTimer_ctor ''ScopeA'' 3"]
  by (simp add: Instrumentor_init_def)

section \<open>The name field\<close>

text \<open>
  C8. \<open>writeProfile\<close> writes the name with every double quote (character 0x22) replaced
  by a single quote (0x27): the name field has the length of the name, a single quote at
  each position of a double quote, the name's own character elsewhere, and no double quote
  at all (hence no escaped one).
\<close>

theorem writeProfile_sanitizes_name:
  assumes "m_currentSessionActive w" and "sink_ready env p w"
  shows "let san = std_replace (CHR 0x22) (CHR 0x27) (ProfileResult.name r) in
           contents (writeProfile env r w) p =
             contents w p @ separator w @
               event_fields (unat (endUs r - startUs r)) san (unat (threadId r))
                 (unat (startUs r - m_sessionStartUs w)) \<and>
           length san = length (ProfileResult.name r) \<and>
           (\<forall>i<length (ProfileResult.name r).
              san ! i = (if ProfileResult.name r ! i = CHR 0x22 then CHR 0x27
                         else ProfileResult.name r ! i)) \<and>
           CHR 0x22 \<notin> set san"
  using writeProfile_contents [OF assms, of r] std_replace_props [of "CHR 0x22" "CHR 0x27" "ProfileResult.name r"]
  by (simp add: Let_def event_json_def)


theorem writeProfile_sanitizes_name_witness:
  "m_currentSessionActive recording_world \<and> sink_ready healthy_env ''trace.json'' recording_world \<and>
   contents (writeProfile healthy_env
       \<lparr>ProfileResult.name = ''NameWith\"Quote'', startUs = 150, endUs = 175, threadId = 7\<rparr>
       recording_world) ''trace.json'' =
     ''{\"otherData\": {},\"traceEvents\":['' @
     ''{\"dur\":25,\"cat\":\"function\",\"name\":\"NameWith'' @ [CHR 0x27] @ ''Quote\",\"ph\":\"X\",\"pid\":0,\"tid\":7,\"ts\":50}''"
  using writeProfile_sanitizes_name [of recording_world healthy_env "''trace.json''"
      "\<lparr>ProfileResult.name = ''NameWith\"Quote'', startUs = 150, endUs = 175, threadId = 7\<rparr>"]
  by (simp add: recording_world_simps Let_def event_fields_def std_replace_def decimal.simps)

section \<open>Intervals that start before the baseline\<close>

text \<open>
  C10. The baseline is subtracted in unsigned 64-bit arithmetic. For an interval that
  starts before the session's baseline, the \<open>ts\<close> written is \<open>2^64\<close> minus the distance to
  the baseline. The two subtractions of the baseline cancel in \<open>dur\<close>, which is
  \<open>endUs - startUs\<close>, and \<open>2^64\<close> minus the distance when the end is before the start.
  The interval is written, not rejected.
\<close>

theorem writeProfile_wraps_before_baseline:
  assumes "m_currentSessionActive w" and "sink_ready env p w"
  shows "contents (writeProfile env r w) p =
           contents w p @ separator w @
             event_fields
               (if endUs r < startUs r then 2 ^ 64 - (unat (startUs r) - unat (endUs r))
                else unat (endUs r) - unat (startUs r))
               (std_replace (CHR 0x22) (CHR 0x27) (ProfileResult.name r))
               (unat (threadId r))
               (if startUs r < m_sessionStartUs w
                then 2 ^ 64 - (unat (m_sessionStartUs w) - unat (startUs r))
                else unat (startUs r) - unat (m_sessionStartUs w))"
proof -
  have ts: "unat (startUs r - m_sessionStartUs w) =
              (if startUs r < m_sessionStartUs w
               then 2 ^ 64 - (unat (m_sessionStartUs w) - unat (startUs r))
               else unat (startUs r) - unat (m_sessionStartUs w))"
    using unsigned_less [of "m_sessionStartUs w", where 'a = nat]
    by (auto simp: unat_sub_if_size word_less_nat_alt word_size)
  have dur: "unat (endUs r - startUs r) =
               (if endUs r < startUs r then 2 ^ 64 - (unat (startUs r) - unat (endUs r))
                else unat (endUs r) - unat (startUs r))"
    using unsigned_less [of "startUs r", where 'a = nat]
    by (auto simp: unat_sub_if_size word_less_nat_alt word_size)
  show ?thesis
    using writeProfile_contents [OF assms, of r]
    by (simp only: event_json_def ts dur)
qed

theorem writeProfile_wraps_before_baseline_witness:
  "m_currentSessionActive recording_world \<and> sink_ready healthy_env ''trace.json'' recording_world \<and>
   (40 :: u64) < m_sessionStartUs recording_world \<and>
   contents (writeProfile healthy_env
       \<lparr>ProfileResult.name = ''early'', startUs = 40, endUs = 30, threadId = 7\<rparr>
       recording_world) ''trace.json'' =
     ''{\"otherData\": {},\"traceEvents\":['' @
     ''{\"dur\":18446744073709551606,\"cat\":\"function\",\"name\":\"early\",\"ph\":\"X\",\"pid\":0,\"tid\":7,\"ts\":18446744073709551556}''"
  using writeProfile_wraps_before_baseline [of recording_world healthy_env "''trace.json''"
      "\<lparr>ProfileResult.name = ''early'', startUs = 40, endUs = 30, threadId = 7\<rparr>"]
  by (simp add: recording_world_simps event_fields_def std_replace_def decimal.simps)


section \<open>A sink that fails\<close>

lemma stream_put_failed: "failed (m_outputStream w) \<Longrightarrow> stream_put env s w = w"
  by (simp add: stream_put_def)

lemma writeProfile_failed:
  assumes "failed (m_outputStream w)"
  shows "files (writeProfile env r w) = files w \<and>
         m_outputStream (writeProfile env r w) = m_outputStream w \<and>
         m_currentSessionActive (writeProfile env r w) = m_currentSessionActive w"
proof (cases "m_currentSessionActive w")
  case True
  then show ?thesis using assms by (simp add: writeProfile_active stream_put_failed)
next
  case False
  then show ?thesis by (simp add: writeProfile_def)
qed

lemma submit_failed:
  "failed (m_outputStream w) \<Longrightarrow>
   files (submit env rs w) = files w \<and>
   m_outputStream (submit env rs w) = m_outputStream w \<and>
   m_currentSessionActive (submit env rs w) = m_currentSessionActive w"
proof (induction rs arbitrary: w)
  case Nil
  show ?case by (simp add: submit_def)
next
  case (Cons r rs)
  have step: "submit env (r # rs) w = submit env rs (writeProfile env r w)"
    by (simp add: submit_def)
  from Cons.prems have f: "failed (m_outputStream (writeProfile env r w))"
    by (simp add: writeProfile_failed)
  from Cons.IH [OF f] Cons.prems show ?case
    by (simp add: step writeProfile_failed)
qed

lemma endSession_failed:
  "failed (m_outputStream w) \<Longrightarrow> files (endSession env w) = files w"
  by (simp add: endSession_def writeFooter_def stream_put_failed stream_close_def
      split: option.splits)

lemma beginSession_bad_sink:
  assumes "\<not> m_currentSessionActive w" and "open_file (m_outputStream w) = None"
    and "\<not> openable env p \<or> \<not> writable env (resolve env p)"
  shows "m_currentSessionActive (beginSession env now nm p w) \<and>
         failed (m_outputStream (beginSession env now nm p w)) \<and>
         files (beginSession env now nm p w) =
           (if openable env p then (files w)(resolve env p \<mapsto> []) else files w)"
  using assms
  by (auto simp: beginSession_def Let_def stream_open_def writeHeader_def stream_put_def)

lemma bad_sink_run:
  assumes "\<not> m_currentSessionActive w" and "open_file (m_outputStream w) = None"
    and "\<not> openable env p \<or> \<not> writable env (resolve env p)"
  shows "m_currentSessionActive (writeProfile env r (beginSession env now nm p w)) \<and>
         files (endSession env (writeProfile env r (beginSession env now nm p w))) =
           (if openable env p then (files w)(resolve env p \<mapsto> []) else files w)"
proof -
  let ?w = "beginSession env now nm p w"
  have b: "m_currentSessionActive ?w \<and> failed (m_outputStream ?w) \<and>
           files ?w = (if openable env p then (files w)(resolve env p \<mapsto> []) else files w)"
    using assms by (rule beginSession_bad_sink)
  then have f: "failed (m_outputStream ?w)" by simp
  note wp = writeProfile_failed [OF f, of env r]
  from wp f have "failed (m_outputStream (writeProfile env r ?w))" by simp
  then have "files (endSession env (writeProfile env r ?w)) = files (writeProfile env r ?w)"
    by (rule endSession_failed)
  with b wp show ?thesis by simp
qed

text \<open>
  C4, as the code has it. No operation of the instrumentor reports anything to its caller:
  they return \<open>void\<close> and the stream never throws. When the file cannot be opened, or
  cannot be written, \<open>beginSession\<close> still marks the session active and leaves the
  stream in its error state; whatever is submitted afterwards, and \<open>endSession\<close>, change
  no file. The data is dropped without notice.
\<close>

theorem sink_failure_drops_silently:
  assumes "\<not> m_currentSessionActive w" and "open_file (m_outputStream w) = None"
    and "\<not> openable env p \<or> \<not> writable env (resolve env p)"
  shows "m_currentSessionActive (beginSession env now nm p w) \<and>
         failed (m_outputStream (beginSession env now nm p w)) \<and>
         files (beginSession env now nm p w) =
           (if openable env p then (files w)(resolve env p \<mapsto> []) else files w) \<and>
         files (submit env rs (beginSession env now nm p w)) = files (beginSession env now nm p w) \<and>
         files (endSession env (submit env rs (beginSession env now nm p w)))
           = files (beginSession env now nm p w)"
proof -
  let ?w = "beginSession env now nm p w"
  have b: "m_currentSessionActive ?w \<and> failed (m_outputStream ?w) \<and>
           files ?w = (if openable env p then (files w)(resolve env p \<mapsto> []) else files w)"
    using assms by (rule beginSession_bad_sink)
  then have f: "failed (m_outputStream ?w)" by simp
  have s: "files (submit env rs ?w) = files ?w \<and> m_outputStream (submit env rs ?w) = m_outputStream ?w"
    using submit_failed [OF f] by simp
  then have "failed (m_outputStream (submit env rs ?w))" using f by simp
  then have "files (endSession env (submit env rs ?w)) = files (submit env rs ?w)"
    by (rule endSession_failed)
  with b s show ?thesis by simp
qed

theorem sink_failure_drops_silently_witness:
  "\<not> m_currentSessionActive (Instrumentor_init empty_fs) \<and>
   open_file (m_outputStream (Instrumentor_init empty_fs)) = None \<and>
   \<not> openable unopenable_env ''results.json'' \<and>
   m_currentSessionActive
     (beginSession unopenable_env 100 ''S'' ''results.json'' (Instrumentor_init empty_fs)) \<and>
   files (endSession unopenable_env (submit unopenable_env
       [\<lparr>ProfileResult.name = ''ScopeA'', startUs = 150, endUs = 175, threadId = 7\<rparr>]
       (beginSession unopenable_env 100 ''S'' ''results.json'' (Instrumentor_init empty_fs))))
     ''results.json'' = None"
  using sink_failure_drops_silently [of "Instrumentor_init empty_fs" unopenable_env "''results.json''"
      100 "''S''" "[\<lparr>ProfileResult.name = ''ScopeA'', startUs = 150, endUs = 175, threadId = 7\<rparr>]"]
  by (simp add: Instrumentor_init_def unopenable_env_def empty_fs_def)

text \<open>
  C4, as the claim states it, fails. With a file that cannot be opened, a session is
  begun, an interval recorded and the session ended: the session counts as active all the
  while and no file exists at the end. With a file that can be opened but not written, the
  same run leaves an empty file.
\<close>

theorem sink_failure_surfaced_counterexample:
  "\<not> openable unopenable_env ''results.json'' \<and>
   m_currentSessionActive (writeProfile unopenable_env
       \<lparr>ProfileResult.name = ''ScopeA'', startUs = 150, endUs = 175, threadId = 7\<rparr>
       (beginSession unopenable_env 100 ''S'' ''results.json'' (Instrumentor_init empty_fs))) \<and>
   files (endSession unopenable_env (writeProfile unopenable_env
       \<lparr>ProfileResult.name = ''ScopeA'', startUs = 150, endUs = 175, threadId = 7\<rparr>
       (beginSession unopenable_env 100 ''S'' ''results.json'' (Instrumentor_init empty_fs))))
     ''results.json'' = None \<and>
   \<not> writable unwritable_env ''results.json'' \<and>
   m_currentSessionActive (writeProfile unwritable_env
       \<lparr>ProfileResult.name = ''ScopeA'', startUs = 150, endUs = 175, threadId = 7\<rparr>
       (beginSession unwritable_env 100 ''S'' ''results.json'' (Instrumentor_init empty_fs))) \<and>
   files (endSession unwritable_env (writeProfile unwritable_env
       \<lparr>ProfileResult.name = ''ScopeA'', startUs = 150, endUs = 175, threadId = 7\<rparr>
       (beginSession unwritable_env 100 ''S'' ''results.json'' (Instrumentor_init empty_fs))))
     ''results.json'' = Some []"
proof -
  have i: "\<not> m_currentSessionActive (Instrumentor_init empty_fs)"
    "open_file (m_outputStream (Instrumentor_init empty_fs)) = None"
    "files (Instrumentor_init empty_fs) ''results.json'' = None"
    by (simp_all add: Instrumentor_init_def empty_fs_def)
  have o: "\<not> openable unopenable_env ''results.json''"
    by (simp add: unopenable_env_def)
  then have o': "\<not> openable unopenable_env ''results.json'' \<or>
      \<not> writable unopenable_env (resolve unopenable_env ''results.json'')"
    by simp
  have u: "\<not> writable unwritable_env ''results.json''" "openable unwritable_env ''results.json''"
    "resolve unwritable_env ''results.json'' = ''results.json''"
    by (simp_all add: unwritable_env_def)
  then have u': "\<not> openable unwritable_env ''results.json'' \<or>
      \<not> writable unwritable_env (resolve unwritable_env ''results.json'')"
    by simp
  show ?thesis
    using bad_sink_run [OF i(1,2) o', of "\<lparr>ProfileResult.name = ''ScopeA'', startUs = 150, endUs = 175, threadId = 7\<rparr>" 100 "''S''"]
      bad_sink_run [OF i(1,2) u', of "\<lparr>ProfileResult.name = ''ScopeA'', startUs = 150, endUs = 175, threadId = 7\<rparr>" 100 "''S''"]
    by (simp add: o u i(3))
qed


section \<open>Samples out of order\<close>

lemma process_sample_stamp:
  "process_sample s (result, running) =
     (result @ map (stamp (Sample.ts s)) (stack_events running (stack s)),
      stack_after running (stack s))"
  by (simp add: process_sample_closed_form spec_process_sample_def stack_events_def
      stack_after_def stamp_def Let_def comp_def)

lemma samples_loop_snoc:
  "samples_loop (samples @ [s]) st = process_sample s (samples_loop samples st)"
  by (simp add: samples_loop_append)

lemma final_running_stacks:
  "final_running samples = foldl stack_after [] (map stack samples)"
proof (induction samples rule: rev_induct)
  case Nil
  show ?case by (simp add: final_running_def)
next
  case (snoc s samples)
  obtain result running where st: "samples_loop samples ([], []) = (result, running)"
    by (cases "samples_loop samples ([], [])")
  with snoc have "running = foldl stack_after [] (map stack samples)"
    by (simp add: final_running_def)
  then show ?case
    by (simp add: final_running_def samples_loop_snoc st process_sample_stamp)
qed

lemma convertToTrace_snoc:
  "convertToTrace (samples @ [s]) =
     convertToTrace samples @
       map (stamp (Sample.ts s)) (stack_events (foldl stack_after [] (map stack samples)) (stack s))"
proof -
  obtain result running where st: "samples_loop samples ([], []) = (result, running)"
    by (cases "samples_loop samples ([], [])")
  then have "running = foldl stack_after [] (map stack samples)"
    using final_running_stacks [of samples] by (simp add: final_running_def)
  then show ?thesis
    by (simp add: convertToTrace_def samples_loop_snoc st process_sample_stamp)
qed

text \<open>
  C5, as the code has it. \<open>convertToTrace\<close> never looks at a timestamp and has no error
  result: for every list of samples, in whatever order their timestamps are, the output is
  the events of the first sample, then those of the second, and so on. The events of the
  sample at index \<open>i\<close> are determined by the stacks of the samples up to \<open>i\<close> alone, and
  each of them carries the timestamp of the sample at index \<open>i\<close>, as given.
\<close>

theorem convertToTrace_stamps_each_sample:
  "convertToTrace samples =
     concat (map (\<lambda>i. map (stamp (Sample.ts (samples ! i)))
                         (stack_events (foldl stack_after [] (map stack (take i samples)))
                            (stack (samples ! i))))
                 [0..<length samples])"
proof (induction samples rule: rev_induct)
  case Nil
  show ?case by (simp add: convertToTrace_def)
next
  case (snoc s samples)
  have eq: "map (\<lambda>i. map (stamp (Sample.ts ((samples @ [s]) ! i)))
                    (stack_events (foldl stack_after [] (map stack (take i (samples @ [s]))))
                       (stack ((samples @ [s]) ! i))))
            [0..<length samples]
        = map (\<lambda>i. map (stamp (Sample.ts (samples ! i)))
                    (stack_events (foldl stack_after [] (map stack (take i samples)))
                       (stack (samples ! i))))
            [0..<length samples]"
    by (rule map_cong) (simp_all add: nth_append)
  show ?case
    apply (simp only: length_append_singleton upt_Suc_append [OF le0] map_append concat_append
        list.map concat.simps append_Nil2 eq)
    apply (simp add: convertToTrace_snoc snoc.IH [symmetric])
    done
qed


text \<open>
  C5, as the claim states it, fails: for a sample at 9.2 followed by a sample at 7.5,
  \<open>convertToTrace\<close> returns events, the last one with a timestamp before the others.
\<close>

theorem unordered_samples_rejected_counterexample:
  "Sample.ts \<lparr>Sample.ts = 7.5 :: real, stack = [''main'']\<rparr>
     < Sample.ts \<lparr>Sample.ts = 9.2 :: real, stack = [''main'', ''my_fn'']\<rparr> \<and>
   convertToTrace
     [\<lparr>Sample.ts = 9.2 :: real, stack = [''main'', ''my_fn'']\<rparr>,
      \<lparr>Sample.ts = 7.5, stack = [''main'']\<rparr>]
   = [\<lparr>Event.ts = 9.2, kind = ''start'', Event.name = ''main''\<rparr>,
      \<lparr>Event.ts = 9.2, kind = ''start'', Event.name = ''my_fn''\<rparr>,
      \<lparr>Event.ts = 7.5, kind = ''end'', Event.name = ''my_fn''\<rparr>]"
  by (simp add: convertToTrace_def process_sample_def end_disappeared.simps)

section \<open>The documents are JSON texts\<close>

lemmas lex_eval = start_token_def string_char_def byte_def is_digit_def is_hex_def Let_def

lemma lex_run_append:
  "lex_run st (a @ b) =
     (case lex_run st a of
        None \<Rightarrow> None
      | Some (st1, toks1) \<Rightarrow>
          (case lex_run st1 b of
             None \<Rightarrow> None
           | Some (st2, toks2) \<Rightarrow> Some (st2, toks1 @ toks2)))"
  by (induction a arbitrary: st) (auto split: option.splits)

lemma pda_run_append:
  "pda_run (a @ b) st = (case pda_run a st of None \<Rightarrow> None | Some st1 \<Rightarrow> pda_run b st1)"
  by (induction a arbitrary: st) (auto split: option.splits)

lemma digit_char:
  assumes "d < 10"
  shows "is_digit (''0123456789'' ! d)" and "(''0123456789'' ! d = CHR ''0'') = (d = 0)"
proof -
  from assms have "d = 0 \<or> d = 1 \<or> d = 2 \<or> d = 3 \<or> d = 4 \<or> d = 5 \<or> d = 6 \<or> d = 7 \<or> d = 8 \<or> d = 9"
    by arith
  then show "is_digit (''0123456789'' ! d)" and "(''0123456789'' ! d = CHR ''0'') = (d = 0)"
    by (auto simp: is_digit_def byte_def)
qed

lemma lex_decimal:
  "lex_run Outside (decimal n) = Some (InNumber (if n = 0 then NZero else NInt), [])"
proof (induction n rule: decimal.induct)
  case (1 n)
  show ?case
  proof (cases "n < 10")
    case True
    then show ?thesis
      using digit_char [of n]
      by (subst decimal.simps) (auto simp: start_token_def is_digit_def byte_def)
  next
    case False
    then have nz: "n div 10 \<noteq> 0" by simp
    have d: "n mod 10 < 10" by simp
    from False "1.IH" nz have ih: "lex_run Outside (decimal (n div 10)) = Some (InNumber NInt, [])"
      by simp
    show ?thesis
      using False digit_char(1) [OF d]
      by (subst decimal.simps) (simp add: lex_run_append ih)
  qed
qed


lemma lex_after_number:
  assumes "ns = NZero \<or> ns = NInt"
  shows "lex_run (InNumber ns) '',\"cat\":\"function\",\"name\":\"'' =
           Some (InString, [TNumber, Comma, TString, Colon, TString, Comma, TString, Colon])"
    and "lex_run (InNumber ns) '',\"ts\":'' = Some (Outside, [TNumber, Comma, TString, Colon])"
    and "lex_run (InNumber ns) ''}'' = Some (Outside, [TNumber, RBrace])"
  using assms by (auto simp: lex_eval)

lemma lex_fixed_parts:
  "lex_run Outside ''{\"dur\":'' = Some (Outside, [LBrace, TString, Colon])"
  "lex_run InString ''\",\"ph\":\"X\",\"pid\":0,\"tid\":'' =
     Some (Outside, [TString, Comma, TString, Colon, TString, Comma, TString, Colon, TNumber,
                     Comma, TString, Colon])"
  "lex_run Outside ''{\"otherData\": {},\"traceEvents\":['' =
     Some (Outside, [LBrace, TString, Colon, LBrace, RBrace, Comma, TString, Colon, LBracket])"
  "lex_run Outside '']}'' = Some (Outside, [RBracket, RBrace])"
  "lex_run Outside '', '' = Some (Outside, [Comma])"
  by (simp_all add: lex_eval)

lemma lex_event_fields:
  assumes "json_string_body nm"
  shows "lex_run Outside (event_fields d nm t s) = Some (Outside, event_tokens)"
proof -
  have n: "\<And>k. (if k = 0 then NZero else NInt) = NZero \<or> (if k = (0::nat) then NZero else NInt) = NInt"
    by simp
  from assms have body: "lex_run InString nm = Some (InString, [])"
    by (simp add: json_string_body_def)
  show ?thesis
    unfolding event_fields_def
    apply (simp only: lex_run_append lex_fixed_parts lex_decimal lex_after_number [OF n] body
        option.case prod.case)
    apply (simp add: event_tokens_def)
    done
qed

lemma lex_join_events:
  assumes "\<forall>e \<in> set evs. lex_run Outside e = Some (Outside, event_tokens)"
  shows "lex_run Outside (join_events evs) = Some (Outside, events_tokens (length evs))"
  using assms
proof (induction evs rule: join_events.induct)
  case 1
  show ?case by simp
next
  case (2 e)
  then show ?case by simp
next
  case (3 e e' es)
  then have ih: "lex_run Outside (join_events (e' # es)) = Some (Outside, events_tokens (length (e' # es)))"
    by simp
  from 3 have e: "lex_run Outside e = Some (Outside, event_tokens)" by simp
  have j: "join_events (e # e' # es) = e @ '', '' @ join_events (e' # es)" by simp
  have t: "events_tokens (length (e # e' # es)) =
             event_tokens @ [Comma] @ events_tokens (length (e' # es))"
    by simp
  show ?case
    by (simp only: j t lex_run_append e lex_fixed_parts ih option.case prod.case)
qed

lemma pda_event_tokens:
  "pda_run event_tokens (Value, Arr # stk) = Some (ArrNext, Arr # stk)"
  "pda_run event_tokens (ArrFirst, Arr # stk) = Some (ArrNext, Arr # stk)"
  by (simp_all add: event_tokens_def)

lemma pda_events_tokens:
  "pda_run (events_tokens (Suc n)) (Value, Arr # stk) = Some (ArrNext, Arr # stk)"
  by (induction n) (simp_all add: pda_run_append pda_event_tokens)

lemma pda_array:
  "pda_run (events_tokens n @ [RBracket]) (ArrFirst, Arr # stk) = Some (after_value stk)"
proof (cases n)
  case 0
  then show ?thesis by simp
next
  case (Suc m)
  show ?thesis
  proof (cases m)
    case 0
    with Suc show ?thesis by (simp add: pda_run_append pda_event_tokens)
  next
    case (Suc k)
    with \<open>n = Suc m\<close> show ?thesis
      by (simp add: pda_run_append pda_event_tokens pda_events_tokens)
  qed
qed

lemma document_valid:
  assumes "list_all json_name rs"
  shows "json_valid (document base rs)"
proof -
  have "\<forall>e \<in> set (map (event_json base) rs). lex_run Outside e = Some (Outside, event_tokens)"
    using assms by (auto simp: list_all_iff json_name_def event_json_def lex_event_fields)
  then have j: "lex_run Outside (join_events (map (event_json base) rs)) =
      Some (Outside, events_tokens (length rs))"
    using lex_join_events [of "map (event_json base) rs"] by simp
  have l: "lex_run Outside (document base rs) =
      Some (Outside, [LBrace, TString, Colon, LBrace, RBrace, Comma, TString, Colon, LBracket]
         @ (events_tokens (length rs) @ [RBracket]) @ [RBrace])"
    unfolding document_def
    apply (simp only: lex_run_append lex_fixed_parts j option.case prod.case)
    apply simp
    done
  have p: "pda_run ([LBrace, TString, Colon, LBrace, RBrace, Comma, TString, Colon, LBracket]
         @ (events_tokens (length rs) @ [RBracket]) @ [RBrace]) (Value, []) = Some (Done, [])"
  proof -
    have h: "pda_run [LBrace, TString, Colon, LBrace, RBrace, Comma, TString, Colon, LBracket]
        (Value, []) = Some (ArrFirst, [Arr, Obj])"
      by simp
    show ?thesis
      by (simp only: h pda_array option.case after_value.simps
          pda_run_append [of "[LBrace, TString, Colon, LBrace, RBrace, Comma, TString, Colon, LBracket]"]
          pda_run_append [of "events_tokens (length rs) @ [RBracket]" "[RBrace]"]) simp
  qed
  show ?thesis
    unfolding json_valid_def by (simp only: l p option.case prod.case lex_finish.simps append_Nil2)
qed

lemma plain_string_body:
  assumes "\<forall>c \<in> set s. 32 \<le> byte c \<and> byte c < 128 \<and> c \<noteq> CHR 0x22 \<and> c \<noteq> CHR 0x5C"
  shows "json_string_body s"
  unfolding json_string_body_def using assms
  by (induction s) (auto simp: string_char_def Let_def)


section \<open>Two sessions in a row\<close>

lemma beginSession_active:
  "m_currentSessionActive w \<Longrightarrow>
   beginSession env now nm p w = beginSession env now nm p (endSession env w)"
  by (simp add: beginSession_def endSession_def)

lemma beginSession_fresh:
  assumes "\<not> m_currentSessionActive w" and "open_file (m_outputStream w) = None"
    and "openable env p" and "writable env (resolve env p)"
  shows "m_currentSessionActive (beginSession env now nm p w)"
    and "sink_ready env (resolve env p) (beginSession env now nm p w)"
    and "m_profileCount (beginSession env now nm p w) = 0"
    and "m_sessionStartUs (beginSession env now nm p w) = now"
    and "files (beginSession env now nm p w) =
           (files w)(resolve env p \<mapsto> ''{\"otherData\": {},\"traceEvents\":['')"
  using assms
  by (simp_all add: beginSession_def Let_def stream_open_def writeHeader_def stream_put_def
      sink_ready_def)

lemma writeProfile_ready:
  assumes "m_currentSessionActive w" and "sink_ready env p w"
  shows "m_currentSessionActive (writeProfile env r w)"
    and "sink_ready env p (writeProfile env r w)"
    and "m_profileCount (writeProfile env r w) = m_profileCount w + 1"
    and "m_sessionStartUs (writeProfile env r w) = m_sessionStartUs w"
    and "q \<noteq> p \<Longrightarrow> files (writeProfile env r w) q = files w q"
proof -
  have eq: "writeProfile env r w =
      (w\<lparr>files := (files w)(p \<mapsto> (case files w p of None \<Rightarrow> [] | Some old \<Rightarrow> old)
          @ separator w @ event_json (m_sessionStartUs w) r)\<rparr>)
        \<lparr>m_profileCount := m_profileCount w + 1\<rparr>"
    using assms by (simp add: writeProfile_active stream_put_ready event_json_nonempty)
  show "m_currentSessionActive (writeProfile env r w)"
    and "sink_ready env p (writeProfile env r w)"
    and "m_profileCount (writeProfile env r w) = m_profileCount w + 1"
    and "m_sessionStartUs (writeProfile env r w) = m_sessionStartUs w"
    and "q \<noteq> p \<Longrightarrow> files (writeProfile env r w) q = files w q"
    using assms by (simp_all add: eq sink_ready_def)
qed

lemma submit_Cons: "submit env (r # rs) w = submit env rs (writeProfile env r w)"
  by (simp add: submit_def)

lemma sint_count: "k < 2 ^ 31 \<Longrightarrow> sint (of_nat k :: cpp_int) = int k"
  by (simp add: signed_of_nat signed_take_bit_int_eq_self)

lemma submit_ready:
  assumes "m_currentSessionActive w" and "sink_ready env p w"
    and "m_profileCount w = of_nat k" and "k + length rs < 2 ^ 31"
  shows "m_currentSessionActive (submit env rs w) \<and>
         sink_ready env p (submit env rs w) \<and>
         m_sessionStartUs (submit env rs w) = m_sessionStartUs w \<and>
         (q \<noteq> p \<longrightarrow> files (submit env rs w) q = files w q) \<and>
         contents (submit env rs w) p =
           contents w p @ (if rs = [] then [] else separator w @
              join_events (map (event_json (m_sessionStartUs w)) rs))"
  using assms
proof (induction rs arbitrary: w k)
  case Nil
  then show ?case by (simp add: submit_def)
next
  case (Cons r rs)
  let ?w = "writeProfile env r w"
  note wp = writeProfile_ready [OF Cons.prems(1,2), where r = r]
  have c: "m_profileCount ?w = of_nat (Suc k)" using wp(3) Cons.prems(3) by simp
  have b: "Suc k + length rs < 2 ^ 31" using Cons.prems(4) by simp
  then have "Suc k < 2 ^ 31" by simp
  then have sep: "separator ?w = '', ''" using c by (simp add: separator_def sint_count del: of_nat_Suc)
  note ih = Cons.IH [OF wp(1) wp(2) c b]
  have cont: "contents ?w p = contents w p @ separator w @ event_json (m_sessionStartUs w) r"
    using Cons.prems(1,2) by (rule writeProfile_contents)
  show ?case
    using ih wp(4,5) by (cases rs) (simp_all add: submit_Cons cont sep)
qed

lemma endSession_ready:
  assumes "m_currentSessionActive w" and "sink_ready env p w"
  shows "\<not> m_currentSessionActive (endSession env w)"
    and "open_file (m_outputStream (endSession env w)) = None"
    and "contents (endSession env w) p = contents w p @ '']}''"
    and "q \<noteq> p \<Longrightarrow> files (endSession env w) q = files w q"
proof -
  have eq: "writeFooter env w =
      w\<lparr>files := (files w)(p \<mapsto> (case files w p of None \<Rightarrow> [] | Some old \<Rightarrow> old) @ '']}'')\<rparr>"
    using assms(2) by (simp add: writeFooter_def stream_put_ready)
  show "\<not> m_currentSessionActive (endSession env w)"
    and "open_file (m_outputStream (endSession env w)) = None"
    and "contents (endSession env w) p = contents w p @ '']}''"
    and "q \<noteq> p \<Longrightarrow> files (endSession env w) q = files w q"
    using assms
    by (simp_all add: endSession_def eq stream_close_def sink_ready_def contents_def)
qed

lemma session_document:
  assumes "\<not> m_currentSessionActive w" and "open_file (m_outputStream w) = None"
    and "openable env p" and "writable env (resolve env p)" and "length rs < 2 ^ 31"
  shows "m_currentSessionActive (submit env rs (beginSession env now nm p w))"
    and "sink_ready env (resolve env p) (submit env rs (beginSession env now nm p w))"
    and "contents (endSession env (submit env rs (beginSession env now nm p w))) (resolve env p)
           = document now rs"
    and "q \<noteq> resolve env p \<Longrightarrow>
         files (endSession env (submit env rs (beginSession env now nm p w))) q = files w q"
proof -
  let ?b = "beginSession env now nm p w"
  let ?f = "resolve env p"
  note b = beginSession_fresh [OF assms(1-4), where now = now and nm = nm]
  have c: "m_profileCount ?b = of_nat 0" using b(3) by simp
  have l: "0 + length rs < 2 ^ 31" using assms(5) by simp
  note s = submit_ready [OF b(1) b(2) c l]
  show a: "m_currentSessionActive (submit env rs ?b)" using s by simp
  show r: "sink_ready env ?f (submit env rs ?b)" using s by simp
  note e = endSession_ready [OF a r]
  have sep: "separator ?b = []" using b(3) by (simp add: separator_def)
  have cb: "contents ?b ?f = ''{\"otherData\": {},\"traceEvents\":[''"
    using b(5) by (simp add: contents_def)
  show "contents (endSession env (submit env rs ?b)) ?f = document now rs"
    using e(3) s b(4) by (simp add: sep cb document_def)
  show "files (endSession env (submit env rs ?b)) q = files w q" if "q \<noteq> ?f"
    using e(4) [OF that] s that b(5) by simp
qed

lemma two_sessions:
  assumes "\<not> m_currentSessionActive w" and "open_file (m_outputStream w) = None"
    and "openable env p1" and "writable env (resolve env p1)"
    and "openable env p2" and "writable env (resolve env p2)"
    and "length rs1 < 2 ^ 31" and "length rs2 < 2 ^ 31"
  shows "m_currentSessionActive (submit env rs1 (beginSession env b1 n1 p1 w))"
    and "beginSession env b2 n2 p2 (submit env rs1 (beginSession env b1 n1 p1 w)) =
           beginSession env b2 n2 p2 (endSession env (submit env rs1 (beginSession env b1 n1 p1 w)))"
    and "contents (endSession env (submit env rs1 (beginSession env b1 n1 p1 w))) (resolve env p1)
           = document b1 rs1"
    and "open_file (m_outputStream (endSession env (submit env rs1 (beginSession env b1 n1 p1 w)))) = None"
    and "m_profileCount (endSession env (submit env rs1 (beginSession env b1 n1 p1 w))) = 0"
    and "contents (endSession env (submit env rs2
           (beginSession env b2 n2 p2 (submit env rs1 (beginSession env b1 n1 p1 w))))) (resolve env p2)
         = document b2 rs2"
    and "resolve env p1 \<noteq> resolve env p2 \<Longrightarrow>
         contents (endSession env (submit env rs2
           (beginSession env b2 n2 p2 (submit env rs1 (beginSession env b1 n1 p1 w))))) (resolve env p1)
         = document b1 rs1"
proof -
  let ?w1 = "submit env rs1 (beginSession env b1 n1 p1 w)"
  note s1 = session_document [OF assms(1,2,3,4,7), where now = b1 and nm = n1]
  note e1 = endSession_ready [OF s1(1) s1(2)]
  show a1: "m_currentSessionActive ?w1" by (rule s1(1))
  show eq: "beginSession env b2 n2 p2 ?w1 = beginSession env b2 n2 p2 (endSession env ?w1)"
    using a1 by (rule beginSession_active)
  show d1: "contents (endSession env ?w1) (resolve env p1) = document b1 rs1" by (rule s1(3))
  show "open_file (m_outputStream (endSession env ?w1)) = None" by (rule e1(2))
  show "m_profileCount (endSession env ?w1) = 0" using a1 by (simp add: endSession_def)
  note s2 = session_document [OF e1(1) e1(2) assms(5,6,8), where now = b2 and nm = n2]
  show "contents (endSession env (submit env rs2 (beginSession env b2 n2 p2 ?w1))) (resolve env p2)
          = document b2 rs2"
    using s2(3) by (simp add: eq)
  show "contents (endSession env (submit env rs2 (beginSession env b2 n2 p2 ?w1))) (resolve env p1)
          = document b1 rs1"
    if "resolve env p1 \<noteq> resolve env p2"
    using s2(4) [OF that] d1 by (simp add: eq contents_def)
qed

lemma fresh_init:
  "\<not> m_currentSessionActive (Instrumentor_init fs)"
  "open_file (m_outputStream (Instrumentor_init fs)) = None"
  by (simp_all add: Instrumentor_init_def)

lemma healthy_env_simps:
  "openable healthy_env p" "writable healthy_env p" "resolve healthy_env p = p"
  by (simp_all add: healthy_env_def)

lemma document_example:
  "document 100 [\<lparr>ProfileResult.name = ''EventA'', startUs = 110, endUs = 130, threadId = 1\<rparr>] =
     ''{\"otherData\": {},\"traceEvents\":[{\"dur\":20,\"cat\":\"function\",\"name\":\"EventA\",\"ph\":\"X\",\"pid\":0,\"tid\":1,\"ts\":10}]}''"
  "document 200 [\<lparr>ProfileResult.name = ''EventB'', startUs = 210, endUs = 215, threadId = 1\<rparr>] =
     ''{\"otherData\": {},\"traceEvents\":[{\"dur\":5,\"cat\":\"function\",\"name\":\"EventB\",\"ph\":\"X\",\"pid\":0,\"tid\":1,\"ts\":10}]}''"
  by (simp_all add: document_def event_json_def event_fields_def std_replace_def decimal.simps)

lemma beginSession_failed_unopenable:
  "failed (m_outputStream w) \<Longrightarrow> \<not> openable env p \<Longrightarrow>
   files (beginSession env now nm p w) = files w"
  by (simp add: beginSession_def Let_def endSession_def writeFooter_def writeHeader_def
      stream_put_def stream_close_def stream_open_def split: option.splits)

lemma beginSession_failed_stays:
  "failed (m_outputStream w) \<Longrightarrow> \<not> openable env p \<Longrightarrow>
   failed (m_outputStream (beginSession env now nm p w))"
  by (simp add: beginSession_def Let_def endSession_def writeFooter_def writeHeader_def
      stream_put_def stream_close_def stream_open_def split: option.splits)

lemma unopenable_two_sessions:
  assumes "\<not> m_currentSessionActive w" and "open_file (m_outputStream w) = None"
    and "\<not> openable env p1" and "\<not> openable env p2"
  shows "files (endSession env (writeProfile env r2 (beginSession env b2 n2 p2
           (writeProfile env r1 (beginSession env b1 n1 p1 w))))) = files w"
proof -
  let ?a = "beginSession env b1 n1 p1 w"
  let ?b = "writeProfile env r1 ?a"
  let ?c = "beginSession env b2 n2 p2 ?b"
  let ?d = "writeProfile env r2 ?c"
  from assms(3) have bad: "\<not> openable env p1 \<or> \<not> writable env (resolve env p1)" by simp
  have fa: "failed (m_outputStream ?a)" and a_files: "files ?a = files w"
    using beginSession_bad_sink [OF assms(1,2) bad, of b1 n1] assms(3) by simp_all
  note b = writeProfile_failed [OF fa, of env r1]
  from b fa have fb: "failed (m_outputStream ?b)" by simp
  have c_files: "files ?c = files ?b"
    using fb assms(4) by (rule beginSession_failed_unopenable)
  have fc: "failed (m_outputStream ?c)"
    using fb assms(4) by (rule beginSession_failed_stays)
  note d = writeProfile_failed [OF fc, of env r2]
  from d fc have "failed (m_outputStream ?d)" by simp
  then have "files (endSession env ?d) = files ?d" by (rule endSession_failed)
  with d c_files b a_files show ?thesis by simp
qed


lemma example_names:
  "list_all json_name [\<lparr>ProfileResult.name = ''EventA'', startUs = 110, endUs = 130, threadId = 1\<rparr>]"
  "list_all json_name [\<lparr>ProfileResult.name = ''EventB'', startUs = 210, endUs = 215, threadId = 1\<rparr>]"
  by (simp_all add: json_name_def json_string_body_def std_replace_def lex_eval)

text \<open>
  C7, as the code has it. \<open>beginSession\<close> on an active session is \<open>beginSession\<close> after
  \<open>endSession\<close>: the footer is written, the stream closed and the count reset before the
  new file is opened. Let the two sessions be begun on two paths that name different
  files, both of which can be opened and written, let fewer than \<open>2^31\<close> intervals be
  recorded in each, and let every name, with its double quotes replaced, be the body of a
  JSON string. Then the first file holds the document of the intervals recorded in the
  first session (already when the second session begins), after the end of the second
  session the second file holds the document of the intervals recorded in the second, and
  both documents are valid JSON texts.
\<close>

theorem begin_twice_two_documents:
  assumes "\<not> m_currentSessionActive w" and "open_file (m_outputStream w) = None"
    and "openable env p1" and "writable env (resolve env p1)"
    and "openable env p2" and "writable env (resolve env p2)"
    and "length rs1 < 2 ^ 31" and "length rs2 < 2 ^ 31"
    and "resolve env p1 \<noteq> resolve env p2"
    and "list_all json_name rs1" and "list_all json_name rs2"
  shows "let w1 = submit env rs1 (beginSession env b1 n1 p1 w);
             w2 = beginSession env b2 n2 p2 w1;
             w3 = endSession env (submit env rs2 w2)
         in m_currentSessionActive w1 \<and>
            w2 = beginSession env b2 n2 p2 (endSession env w1) \<and>
            contents (endSession env w1) (resolve env p1) = document b1 rs1 \<and>
            open_file (m_outputStream (endSession env w1)) = None \<and>
            m_profileCount (endSession env w1) = 0 \<and>
            contents w3 (resolve env p1) = document b1 rs1 \<and>
            contents w3 (resolve env p2) = document b2 rs2 \<and>
            json_valid (document b1 rs1) \<and> json_valid (document b2 rs2)"
  using two_sessions [OF assms(1-8)] assms(9) document_valid [OF assms(10)]
    document_valid [OF assms(11)]
  by (simp add: Let_def)

theorem begin_twice_two_documents_witness:
  "contents (endSession healthy_env (submit healthy_env
       [\<lparr>ProfileResult.name = ''EventB'', startUs = 210, endUs = 215, threadId = 1\<rparr>]
       (beginSession healthy_env 200 ''B'' ''trace2.json'' (submit healthy_env
          [\<lparr>ProfileResult.name = ''EventA'', startUs = 110, endUs = 130, threadId = 1\<rparr>]
          (beginSession healthy_env 100 ''A'' ''trace1.json'' (Instrumentor_init empty_fs))))))
     ''trace1.json'' =
     ''{\"otherData\": {},\"traceEvents\":[{\"dur\":20,\"cat\":\"function\",\"name\":\"EventA\",\"ph\":\"X\",\"pid\":0,\"tid\":1,\"ts\":10}]}'' \<and>
   contents (endSession healthy_env (submit healthy_env
       [\<lparr>ProfileResult.name = ''EventB'', startUs = 210, endUs = 215, threadId = 1\<rparr>]
       (beginSession healthy_env 200 ''B'' ''trace2.json'' (submit healthy_env
          [\<lparr>ProfileResult.name = ''EventA'', startUs = 110, endUs = 130, threadId = 1\<rparr>]
          (beginSession healthy_env 100 ''A'' ''trace1.json'' (Instrumentor_init empty_fs))))))
     ''trace2.json'' =
     ''{\"otherData\": {},\"traceEvents\":[{\"dur\":5,\"cat\":\"function\",\"name\":\"EventB\",\"ph\":\"X\",\"pid\":0,\"tid\":1,\"ts\":10}]}'' \<and>
   json_valid ''{\"otherData\": {},\"traceEvents\":[{\"dur\":20,\"cat\":\"function\",\"name\":\"EventA\",\"ph\":\"X\",\"pid\":0,\"tid\":1,\"ts\":10}]}'' \<and>
   json_valid ''{\"otherData\": {},\"traceEvents\":[{\"dur\":5,\"cat\":\"function\",\"name\":\"EventB\",\"ph\":\"X\",\"pid\":0,\"tid\":1,\"ts\":10}]}''"
proof -
  have ne: "resolve healthy_env ''trace1.json'' \<noteq> resolve healthy_env ''trace2.json''"
    by (simp add: healthy_env_def)
  have len: "length [r] < 2 ^ 31" for r :: ProfileResult
    by simp
  note t = begin_twice_two_documents [OF fresh_init [of empty_fs] healthy_env_simps(1,2)
      healthy_env_simps(1,2) len len ne example_names,
      where ?b1.0 = 100 and ?n1.0 = "''A''" and ?b2.0 = 200 and ?n2.0 = "''B''"]
  from t show ?thesis
    unfolding Let_def document_example healthy_env_simps(3) by blast
qed

lemma backslash_document:
  "\<not> json_valid (document 100
      [\<lparr>ProfileResult.name = [CHR ''a'', CHR 0x5C], startUs = 110, endUs = 130, threadId = 1\<rparr>])"
  by (simp add: document_def event_json_def event_fields_def std_replace_def decimal.simps
      json_valid_def lex_eval)

lemma dot_slash_env_simps:
  "openable dot_slash_env p" "writable dot_slash_env p"
  "resolve dot_slash_env ''trace.json'' = ''trace.json''"
  "resolve dot_slash_env ''./trace.json'' = ''trace.json''"
  by (simp_all add: dot_slash_env_def)

text \<open>
  C7, as the claim states it, fails in four ways. When both sessions are begun on the same
  path (the default \<open>results.json\<close>, say), the second \<open>beginSession\<close> truncates the file,
  and at the end it holds the second session's document only. The same happens for two
  different paths that name one file, as \<open>trace.json\<close> and \<open>./trace.json\<close>. When a name
  ends with a backslash, the document of its session is not a JSON text. When the files
  cannot be opened, neither document exists at the end.
\<close>

theorem begin_twice_same_path_counterexample:
  "contents (endSession healthy_env (submit healthy_env
       [\<lparr>ProfileResult.name = ''EventB'', startUs = 210, endUs = 215, threadId = 1\<rparr>]
       (beginSession healthy_env 200 ''B'' ''results.json'' (submit healthy_env
          [\<lparr>ProfileResult.name = ''EventA'', startUs = 110, endUs = 130, threadId = 1\<rparr>]
          (beginSession healthy_env 100 ''A'' ''results.json'' (Instrumentor_init empty_fs))))))
     ''results.json'' =
     ''{\"otherData\": {},\"traceEvents\":[{\"dur\":5,\"cat\":\"function\",\"name\":\"EventB\",\"ph\":\"X\",\"pid\":0,\"tid\":1,\"ts\":10}]}'' \<and>
   contents (endSession dot_slash_env (submit dot_slash_env
       [\<lparr>ProfileResult.name = ''EventB'', startUs = 210, endUs = 215, threadId = 1\<rparr>]
       (beginSession dot_slash_env 200 ''B'' ''./trace.json'' (submit dot_slash_env
          [\<lparr>ProfileResult.name = ''EventA'', startUs = 110, endUs = 130, threadId = 1\<rparr>]
          (beginSession dot_slash_env 100 ''A'' ''trace.json'' (Instrumentor_init empty_fs))))))
     ''trace.json'' =
     ''{\"otherData\": {},\"traceEvents\":[{\"dur\":5,\"cat\":\"function\",\"name\":\"EventB\",\"ph\":\"X\",\"pid\":0,\"tid\":1,\"ts\":10}]}'' \<and>
   \<not> json_valid (contents (endSession healthy_env (submit healthy_env
       [\<lparr>ProfileResult.name = ''EventB'', startUs = 210, endUs = 215, threadId = 1\<rparr>]
       (beginSession healthy_env 200 ''B'' ''trace2.json'' (submit healthy_env
          [\<lparr>ProfileResult.name = [CHR ''a'', CHR 0x5C], startUs = 110, endUs = 130, threadId = 1\<rparr>]
          (beginSession healthy_env 100 ''A'' ''trace1.json'' (Instrumentor_init empty_fs))))))
     ''trace1.json'') \<and>
   files (endSession unopenable_env (writeProfile unopenable_env
       \<lparr>ProfileResult.name = ''EventB'', startUs = 210, endUs = 215, threadId = 1\<rparr>
       (beginSession unopenable_env 200 ''B'' ''trace2.json'' (writeProfile unopenable_env
          \<lparr>ProfileResult.name = ''EventA'', startUs = 110, endUs = 130, threadId = 1\<rparr>
          (beginSession unopenable_env 100 ''A'' ''trace1.json'' (Instrumentor_init empty_fs))))))
     ''trace1.json'' = None \<and>
   files (endSession unopenable_env (writeProfile unopenable_env
       \<lparr>ProfileResult.name = ''EventB'', startUs = 210, endUs = 215, threadId = 1\<rparr>
       (beginSession unopenable_env 200 ''B'' ''trace2.json'' (writeProfile unopenable_env
          \<lparr>ProfileResult.name = ''EventA'', startUs = 110, endUs = 130, threadId = 1\<rparr>
          (beginSession unopenable_env 100 ''A'' ''trace1.json'' (Instrumentor_init empty_fs))))))
     ''trace2.json'' = None"
proof -
  have same: "contents (endSession healthy_env (submit healthy_env
       [\<lparr>ProfileResult.name = ''EventB'', startUs = 210, endUs = 215, threadId = 1\<rparr>]
       (beginSession healthy_env 200 ''B'' ''results.json'' (submit healthy_env
          [\<lparr>ProfileResult.name = ''EventA'', startUs = 110, endUs = 130, threadId = 1\<rparr>]
          (beginSession healthy_env 100 ''A'' ''results.json'' (Instrumentor_init empty_fs))))))
     ''results.json'' =
     ''{\"otherData\": {},\"traceEvents\":[{\"dur\":5,\"cat\":\"function\",\"name\":\"EventB\",\"ph\":\"X\",\"pid\":0,\"tid\":1,\"ts\":10}]}''"
    using two_sessions(6) [where w = "Instrumentor_init empty_fs" and env = healthy_env
        and ?p1.0 = "''results.json''" and ?p2.0 = "''results.json''"
        and ?b1.0 = 100 and ?n1.0 = "''A''" and ?b2.0 = 200 and ?n2.0 = "''B''"
        and ?rs1.0 = "[\<lparr>ProfileResult.name = ''EventA'', startUs = 110, endUs = 130, threadId = 1\<rparr>]"
        and ?rs2.0 = "[\<lparr>ProfileResult.name = ''EventB'', startUs = 210, endUs = 215, threadId = 1\<rparr>]"]
    by (simp add: document_example healthy_env_simps fresh_init)
  have aliased: "contents (endSession dot_slash_env (submit dot_slash_env
       [\<lparr>ProfileResult.name = ''EventB'', startUs = 210, endUs = 215, threadId = 1\<rparr>]
       (beginSession dot_slash_env 200 ''B'' ''./trace.json'' (submit dot_slash_env
          [\<lparr>ProfileResult.name = ''EventA'', startUs = 110, endUs = 130, threadId = 1\<rparr>]
          (beginSession dot_slash_env 100 ''A'' ''trace.json'' (Instrumentor_init empty_fs))))))
     ''trace.json'' =
     ''{\"otherData\": {},\"traceEvents\":[{\"dur\":5,\"cat\":\"function\",\"name\":\"EventB\",\"ph\":\"X\",\"pid\":0,\"tid\":1,\"ts\":10}]}''"
    using two_sessions(6) [where w = "Instrumentor_init empty_fs" and env = dot_slash_env
        and ?p1.0 = "''trace.json''" and ?p2.0 = "''./trace.json''"
        and ?b1.0 = 100 and ?n1.0 = "''A''" and ?b2.0 = 200 and ?n2.0 = "''B''"
        and ?rs1.0 = "[\<lparr>ProfileResult.name = ''EventA'', startUs = 110, endUs = 130, threadId = 1\<rparr>]"
        and ?rs2.0 = "[\<lparr>ProfileResult.name = ''EventB'', startUs = 210, endUs = 215, threadId = 1\<rparr>]"]
    by (simp add: document_example dot_slash_env_simps fresh_init)
  have ne: "resolve healthy_env ''trace1.json'' \<noteq> resolve healthy_env ''trace2.json''"
    by (simp add: healthy_env_def)
  have bad: "contents (endSession healthy_env (submit healthy_env
       [\<lparr>ProfileResult.name = ''EventB'', startUs = 210, endUs = 215, threadId = 1\<rparr>]
       (beginSession healthy_env 200 ''B'' ''trace2.json'' (submit healthy_env
          [\<lparr>ProfileResult.name = [CHR ''a'', CHR 0x5C], startUs = 110, endUs = 130, threadId = 1\<rparr>]
          (beginSession healthy_env 100 ''A'' ''trace1.json'' (Instrumentor_init empty_fs))))))
     ''trace1.json'' = document 100
       [\<lparr>ProfileResult.name = [CHR ''a'', CHR 0x5C], startUs = 110, endUs = 130, threadId = 1\<rparr>]"
    using two_sessions(7) [where w = "Instrumentor_init empty_fs" and env = healthy_env
        and ?p1.0 = "''trace1.json''" and ?p2.0 = "''trace2.json''"
        and ?b1.0 = 100 and ?n1.0 = "''A''" and ?b2.0 = 200 and ?n2.0 = "''B''"
        and ?rs1.0 = "[\<lparr>ProfileResult.name = [CHR ''a'', CHR 0x5C], startUs = 110, endUs = 130, threadId = 1\<rparr>]"
        and ?rs2.0 = "[\<lparr>ProfileResult.name = ''EventB'', startUs = 210, endUs = 215, threadId = 1\<rparr>]"]
    by (simp add: healthy_env_simps fresh_init)
  have no: "\<not> openable unopenable_env ''trace1.json''" "\<not> openable unopenable_env ''trace2.json''"
    by (simp_all add: unopenable_env_def)
  have none: "files (endSession unopenable_env (writeProfile unopenable_env
       \<lparr>ProfileResult.name = ''EventB'', startUs = 210, endUs = 215, threadId = 1\<rparr>
       (beginSession unopenable_env 200 ''B'' ''trace2.json'' (writeProfile unopenable_env
          \<lparr>ProfileResult.name = ''EventA'', startUs = 110, endUs = 130, threadId = 1\<rparr>
          (beginSession unopenable_env 100 ''A'' ''trace1.json'' (Instrumentor_init empty_fs))))))
       = files (Instrumentor_init empty_fs)"
    using fresh_init [of empty_fs] no by (rule unopenable_two_sessions)
  have "files (Instrumentor_init empty_fs) = Map.empty"
    by (simp add: Instrumentor_init_def empty_fs_def)
  with same aliased none backslash_document show ?thesis by (simp add: bad)
qed


section \<open>One interval for each timer\<close>

lemma running_timers_subset: "running_timers tm \<subseteq> dom tm"
  by (auto simp: running_timers_def)

lemma finite_running_timers: "finite (dom tm) \<Longrightarrow> finite (running_timers tm)"
  using running_timers_subset by (rule finite_subset)

lemma running_timers_upd:
  "running_timers (tm(i \<mapsto> t)) =
     (if m_stopped t then running_timers tm - {i} else insert i (running_timers tm))"
  by (auto simp: running_timers_def)

lemma running_timers_del: "running_timers (tm(i := None)) = running_timers tm - {i}"
  by (auto simp: running_timers_def)

lemma timer_step_count:
  assumes "finite (dom tm)" and "timer_step c tm = Some (tm1, subs)"
  shows "finite (dom tm1) \<and>
         length subs + card (running_timers tm1) =
           card (running_timers tm) + (if is_Construct c then 1 else 0)"
proof (cases c)
  case (Construct i nm now)
  with assms have new: "tm i = None" and tm1: "tm1 = tm(i \<mapsto> InstrumentationTimer_ctor nm now)"
    and subs: "subs = []"
    by (auto split: if_splits)
  from new have "i \<notin> running_timers tm" by (simp add: running_timers_def)
  with assms(1) show ?thesis
    by (simp add: Construct tm1 subs running_timers_upd InstrumentationTimer_ctor_def
        finite_running_timers)
next
  case (Stop i now tid)
  with assms obtain t where t: "tm i = Some t" and tm1: "tm1 = tm(i \<mapsto> fst (stop now tid t))"
    and subs: "subs = snd (stop now tid t)"
    by (auto split: option.splits)
  show ?thesis
  proof (cases "m_stopped t")
    case True
    with t have "i \<notin> running_timers tm" by (simp add: running_timers_def)
    with True assms(1) show ?thesis
      by (simp add: Stop tm1 subs stop_def running_timers_upd)
  next
    case False
    with t have "i \<in> running_timers tm" by (simp add: running_timers_def)
    moreover from this assms(1) have "0 < card (running_timers tm)"
      by (auto simp: card_gt_0_iff finite_running_timers)
    ultimately show ?thesis using False assms(1)
      by (simp add: Stop tm1 subs stop_def running_timers_upd)
  qed
next
  case (Destroy i now tid)
  with assms obtain t where t: "tm i = Some t" and tm1: "tm1 = tm(i := None)"
    and subs: "subs = InstrumentationTimer_dtor now tid t"
    by (auto split: option.splits)
  show ?thesis
  proof (cases "m_stopped t")
    case True
    with t have "i \<notin> running_timers tm" by (simp add: running_timers_def)
    with True assms(1) show ?thesis
      by (simp add: Destroy tm1 subs InstrumentationTimer_dtor_def running_timers_del)
  next
    case False
    with t have "i \<in> running_timers tm" by (simp add: running_timers_def)
    moreover from this assms(1) have "0 < card (running_timers tm)"
      by (auto simp: card_gt_0_iff finite_running_timers)
    ultimately show ?thesis using False assms(1)
      by (simp add: Destroy tm1 subs InstrumentationTimer_dtor_def stop_def running_timers_del)
  qed
qed

lemma timer_run_count:
  assumes "finite (dom tm)" and "timer_run cs tm = Some (tm2, subs)"
  shows "length subs + card (running_timers tm2) =
           card (running_timers tm) + length (filter is_Construct cs)"
  using assms
proof (induction cs arbitrary: tm subs)
  case Nil
  then show ?case by simp
next
  case (Cons c cs)
  from Cons.prems(2) obtain tm1 subs1 subs2 where
    step: "timer_step c tm = Some (tm1, subs1)" and
    rest: "timer_run cs tm1 = Some (tm2, subs2)" and
    subs: "subs = subs1 @ subs2"
    by (auto split: option.splits)
  note s = timer_step_count [OF Cons.prems(1) step]
  then have fin: "finite (dom tm1)" by simp
  note r = Cons.IH [OF fin rest]
  from s r show ?case by (auto simp: subs)
qed

text \<open>
  C9. A second \<open>stop\<close> on a timer changes nothing and submits nothing, and so does the
  destructor after a \<open>stop\<close>. Hence a program that constructs timers, stops them any
  number of times and has destroyed them all at its end submits exactly as many intervals
  to the instrumentor as it constructed timers.
\<close>

theorem each_timer_submits_once:
  assumes "timer_run cs no_timers = Some (no_timers, subs)"
  shows "length subs = length (filter is_Construct cs) \<and>
         stop now2 tid2 (fst (stop now1 tid1 t)) = (fst (stop now1 tid1 t), []) \<and>
         InstrumentationTimer_dtor now2 tid2 (fst (stop now1 tid1 t)) = []"
proof -
  have "finite (dom no_timers)" by (simp add: no_timers_def)
  from timer_run_count [OF this assms] have "length subs = length (filter is_Construct cs)"
    by (simp add: no_timers_def running_timers_def)
  then show ?thesis
    by (simp add: stop_def InstrumentationTimer_dtor_def)
qed

theorem each_timer_submits_once_witness:
  "timer_run [Construct 0 ''ScopeStopOnce'' 10, Stop 0 20 1, Stop 0 30 1, Destroy 0 40 1] no_timers
     = Some (no_timers,
         [\<lparr>ProfileResult.name = ''ScopeStopOnce'', startUs = 10, endUs = 20, threadId = 1\<rparr>]) \<and>
   length [\<lparr>ProfileResult.name = ''ScopeStopOnce'', startUs = 10, endUs = 20, threadId = 1\<rparr>]
     = length (filter is_Construct
         [Construct 0 ''ScopeStopOnce'' 10, Stop 0 20 1, Stop 0 30 1, Destroy 0 40 1])"
proof -
  have run: "timer_run [Construct 0 ''ScopeStopOnce'' 10, Stop 0 20 1, Stop 0 30 1, Destroy 0 40 1]
      no_timers = Some (no_timers,
         [\<lparr>ProfileResult.name = ''ScopeStopOnce'', startUs = 10, endUs = 20, threadId = 1\<rparr>])"
    by (simp add: no_timers_def stop_def InstrumentationTimer_dtor_def InstrumentationTimer_ctor_def)
  from each_timer_submits_once [OF run] run show ?thesis by simp
qed


end
